theory Spec2Isabelle
  imports Main "HOL-Library.Word" "HOL-Library.Multiset"
begin

unbundle bit_operations_syntax

section \<open>Data model\<close>

text \<open>
  The gateway of \<^verbatim>\<open>gateway.go\<close> keeps its nodes and devices behind pointers
  (\<^verbatim>\<open>*internalNode\<close>, \<^verbatim>\<open>*internalDevice\<close>): the same device object is reached from the
  gateway's device map and from its node's device list. Pointers are addresses into two
  stores, \<open>nodeStore\<close> and \<open>deviceStore\<close>, which are total functions: a Go pointer that was
  allocated never dangles. The mutexes of the source are not modelled: every operation below
  is one sequential run of the function it embeds.
\<close>

type_synonym IEEEAddress = "64 word"
type_synonym Endpoint = "8 word"
type_synonym ClusterID = "16 word"
type_synonym AttributeID = "16 word"
type_synonym addr = nat

text \<open>
  \<^verbatim>\<open>da.Capability\<close> is an integer type; the five flags the constructor registers are distinct
  constants of the capabilities package, every other value is \<open>OtherFlag\<close>.
\<close>

datatype Capability =
    DeviceDiscoveryFlag
  | EnumerateDeviceFlag
  | LocalDebugFlag
  | HasProductInformationFlag
  | OnOffFlag
  | OtherFlag nat

datatype CapabilityImpl =
    ZigbeeDeviceDiscovery
  | ZigbeeEnumerateDevice
  | ZigbeeLocalDebug
  | ZigbeeHasProductInformation
  | ZigbeeOnOff

text \<open>
  \<^verbatim>\<open>da.Identifier\<close> is an interface: the gateway's own device carries the adapter's IEEE
  address, a device of a node the address with a sub-identifier. \<open>NoIdentifier\<close> is the nil
  interface, the zero value of the field.
\<close>

datatype Identifier =
    NoIdentifier
  | IEEEAddressId IEEEAddress
  | IEEEAddressWithSubIdentifier IEEEAddress "8 word"

datatype GatewayRef = ThisGateway

record Device =
  Gateway :: "GatewayRef option"
  Identifier :: Identifier
  Capabilities :: "Capability list"

record ProductInformation =
  Manufacturer :: string
  Name :: string
  Present :: "8 word"

text \<open>
  Modelled from the spec: the declarations of \<^verbatim>\<open>internalDevice\<close> and \<^verbatim>\<open>internalNode\<close> are
  not in the source at hand. Their fields are the ones the source reads and writes
  (\<^verbatim>\<open>device\<close>, \<^verbatim>\<open>endpoints\<close>, \<^verbatim>\<open>productInformation\<close>; \<^verbatim>\<open>ieeeAddress\<close>, \<^verbatim>\<open>devices\<close>,
  \<^verbatim>\<open>endpointDescriptions\<close>, \<^verbatim>\<open>supportsAPSAck\<close>) and what the spec's data model adds: a
  device "belongs to exactly one node" (\<open>owner\<close>), a node has a wrapping 8-bit transaction
  counter and hands out the sub-device index of its devices' identifiers. The node's device
  list is the spec's "ordered sequence", here of device addresses.
\<close>

record internalDevice =
  device :: Device
  owner :: "addr option"
  endpoints :: "Endpoint list"
  productInformation :: ProductInformation

record EndpointDescription =
  InClusterList :: "ClusterID list"
  OutClusterList :: "ClusterID list"

record internalNode =
  ieeeAddress :: IEEEAddress
  node_devices :: "addr list"
  endpointDescriptions :: "Endpoint \<rightharpoonup> EndpointDescription"
  supportsAPSAck :: bool
  transactionSequence :: "8 word"
  deviceSequence :: "8 word"

datatype error =
    ContextExpired
  | NotSelfDevice
  | ProviderError string

datatype Event =
    DeviceDiscoveryAllowed Device nat
  | DeviceDiscoveryDenied Device
  | OtherEvent nat

datatype internalEvent =
    internalNodeJoin addr
  | internalNodeLeave addr
  | internalNodeEnumeration addr

text \<open>
  The calls a run makes are appended to \<open>trace\<close>, in the order in which they are made: an
  event handed to the callback bus (whose subscribers for join and leave are not part of the
  source at hand), a store operation, a message given to the ZCL communicator. What is
  printed or logged goes to \<open>printed\<close>.
\<close>

datatype action =
    CallbacksCall internalEvent
  | AddNode IEEEAddress
  | AddDevice Identifier
  | RemoveDevice Identifier
  | RemoveNode IEEEAddress
  | ProcessIncomingMessage nat

datatype logLine =
    CouldNotListen error
  | CouldNotSendEvent Event
  | FailedToReadProductInformation error

text \<open>
  The arguments of one \<^verbatim>\<open>ReadAttributes\<close> call of the ZCL communicator. The calls made are
  kept in \<open>zclRequests\<close>, oldest first.
\<close>

record ReadRequest =
  req_ieeeAddress :: IEEEAddress
  req_requireAck :: bool
  req_cluster :: ClusterID
  req_sourceEndpoint :: Endpoint
  req_destEndpoint :: Endpoint
  req_transactionSequence :: "8 word"
  req_attributes :: "AttributeID list"

record ZigbeeGateway =
  self :: internalDevice
  events :: "Event list"
  capabilities :: "Capability \<rightharpoonup> CapabilityImpl"
  devices :: "Identifier \<rightharpoonup> addr"
  nodes :: "IEEEAddress \<rightharpoonup> addr"
  nodeStore :: "addr \<Rightarrow> internalNode"
  deviceStore :: "addr \<Rightarrow> internalDevice"
  nextNode :: addr
  nextDevice :: addr
  pollerStarted :: bool
  providerHandlerStarted :: bool
  capabilitiesStarted :: bool
  zclRequests :: "ReadRequest list"
  trace :: "action list"
  printed :: "logLine list"

text \<open>The provider, as far as \<^verbatim>\<open>Start\<close> and the discovery capability call it.\<close>

record Provider =
  AdapterNode :: IEEEAddress
  RegisterAdapterEndpoint :: "error option"
  PermitJoin :: "error option"
  DenyJoin :: "error option"

section \<open>Construction, start, and the accessors\<close>

definition zeroDevice :: Device where
  "zeroDevice = \<lparr>Gateway = None, Identifier = NoIdentifier, Capabilities = []\<rparr>"

definition zeroProductInformation :: ProductInformation where
  "zeroProductInformation = \<lparr>Manufacturer = [], Name = [], Present = 0\<rparr>"

definition zeroInternalDevice :: internalDevice where
  "zeroInternalDevice =
     \<lparr>device = zeroDevice, owner = None, endpoints = [],
      productInformation = zeroProductInformation\<rparr>"

definition zeroInternalNode :: internalNode where
  "zeroInternalNode =
     \<lparr>ieeeAddress = 0, node_devices = [], endpointDescriptions = Map.empty,
      supportsAPSAck = False, transactionSequence = 0, deviceSequence = 0\<rparr>"

text \<open>The capacity of the \<^verbatim>\<open>events\<close> channel: \<^verbatim>\<open>make(chan interface{}, 100)\<close>.\<close>

definition eventsCapacity :: nat where
  "eventsCapacity = 100"

text \<open>
  \<^verbatim>\<open>New\<close>: the gateway with empty maps, an empty event channel, a zero-valued \<^verbatim>\<open>self\<close> and the
  five capability implementations, assigned in the order of the source. The callbacks that
  the implementations register in their \<^verbatim>\<open>Init\<close> and the ZCL command registry are left out:
  nothing below reads them.
\<close>

definition New :: ZigbeeGateway where
  "New =
     \<lparr>self = zeroInternalDevice,
      events = [],
      capabilities =
        ((((Map.empty(DeviceDiscoveryFlag \<mapsto> ZigbeeDeviceDiscovery))
            (EnumerateDeviceFlag \<mapsto> ZigbeeEnumerateDevice))
            (LocalDebugFlag \<mapsto> ZigbeeLocalDebug))
            (HasProductInformationFlag \<mapsto> ZigbeeHasProductInformation))
            (OnOffFlag \<mapsto> ZigbeeOnOff),
      devices = Map.empty,
      nodes = Map.empty,
      nodeStore = (\<lambda>_. zeroInternalNode),
      deviceStore = (\<lambda>_. zeroInternalDevice),
      nextNode = 0,
      nextDevice = 0,
      pollerStarted = False,
      providerHandlerStarted = False,
      capabilitiesStarted = False,
      zclRequests = [],
      trace = [],
      printed = []\<rparr>"

text \<open>
  \<^verbatim>\<open>Start\<close> fills the three fields of \<^verbatim>\<open>self.device\<close> first, then registers the adapter
  endpoint and returns its error, if any, before anything is started.
\<close>

definition Start :: "Provider \<Rightarrow> ZigbeeGateway \<Rightarrow> error option \<times> ZigbeeGateway" where
  "Start provider z =
     (let z1 = z\<lparr>self := (self z)\<lparr>device :=
                 \<lparr>Gateway = Some ThisGateway,
                  Identifier = IEEEAddressId (AdapterNode provider),
                  Capabilities = [DeviceDiscoveryFlag]\<rparr>\<rparr>\<rparr>
      in case RegisterAdapterEndpoint provider of
           Some err \<Rightarrow> (Some err, z1)
         | None \<Rightarrow>
             (None, z1\<lparr>pollerStarted := True, providerHandlerStarted := True,
                       capabilitiesStarted := True\<rparr>))"

text \<open>
  \<^verbatim>\<open>sendEvent\<close>: a \<^verbatim>\<open>select\<close> with a \<^verbatim>\<open>default\<close> branch. The send is taken when the channel
  has room, otherwise the warning is printed; either way the function returns, and it has no
  result.
\<close>

definition sendEvent :: "ZigbeeGateway \<Rightarrow> Event \<Rightarrow> ZigbeeGateway" where
  "sendEvent z event =
     (if length (events z) < eventsCapacity
      then z\<lparr>events := events z @ [event]\<rparr>
      else z\<lparr>printed := printed z @ [CouldNotSendEvent event]\<rparr>)"

text \<open>
  \<^verbatim>\<open>ReadEvent\<close> takes the oldest event of the channel; on an empty channel it waits for the
  context, whose end is the error \<^verbatim>\<open>zigbee.ContextExpired\<close>.
\<close>

definition ReadEvent :: "ZigbeeGateway \<Rightarrow> (error + Event) \<times> ZigbeeGateway" where
  "ReadEvent z =
     (case events z of
        [] \<Rightarrow> (Inl ContextExpired, z)
      | event # rest \<Rightarrow> (Inr event, z\<lparr>events := rest\<rparr>))"

definition Capability :: "ZigbeeGateway \<Rightarrow> Capability \<Rightarrow> CapabilityImpl option" where
  "Capability z capability = capabilities z capability"

definition Self :: "ZigbeeGateway \<Rightarrow> Device" where
  "Self z = device (self z)"

section \<open>The product information capability\<close>

text \<open>
  A record of a read-attributes response. \<^verbatim>\<open>DataTypeValue.Value\<close> is an \<^verbatim>\<open>interface{}\<close>: the
  handler reads it with the unchecked assertion \<^verbatim>\<open>.(string)\<close>, which panics on any value that
  is not a string. \<open>OtherValue\<close> stands for those values.
\<close>

datatype AttributeValue = StringValue string | OtherValue

record ReadAttributeResponseRecord =
  rec_Identifier :: AttributeID
  rec_Status :: "8 word"
  rec_Value :: AttributeValue

datatype panic = InterfaceConversion

text \<open>
  The answers of the ZCL communicator: the outcome of the \<open>i\<close>-th \<^verbatim>\<open>ReadAttributes\<close> call,
  an error or the records returned.
\<close>

type_synonym ReadAttributes = "nat \<Rightarrow> error + ReadAttributeResponseRecord list"

text \<open>
  Constants that the capability uses and that are declared outside the source at hand:
  the two present-bits \<^verbatim>\<open>capabilities.Manufacturer\<close> and \<^verbatim>\<open>capabilities.Name\<close>, and the number
  of attempts \<^verbatim>\<open>DefaultNetworkRetries\<close>. They are parameters of the model.
\<close>

record Constants =
  ManufacturerBit :: "8 word"
  NameBit :: "8 word"
  DefaultNetworkRetries :: nat

text \<open>
  Modelled from the spec: \<^verbatim>\<open>isClusterIdInSlice\<close> is not in the source at hand; the handler
  uses it to find an endpoint "advertising cluster 0x0000", that is, one whose in-cluster
  list has the cluster as a member.
\<close>

definition isClusterIdInSlice :: "ClusterID list \<Rightarrow> ClusterID \<Rightarrow> bool" where
  "isClusterIdInSlice haystack needle = (needle \<in> set haystack)"

text \<open>
  Modelled from the spec: \<^verbatim>\<open>addCapability\<close> is not in the source at hand; it attaches a flag
  to the device's capabilities, which the spec describes as a set: a flag already there is
  not added again.
\<close>

definition addCapability :: "Device \<Rightarrow> Capability \<Rightarrow> Device" where
  "addCapability d capability =
     (if capability \<in> set (Capabilities d) then d
      else d\<lparr>Capabilities := Capabilities d @ [capability]\<rparr>)"

text \<open>
  Modelled from the spec: \<^verbatim>\<open>nextTransactionSequence\<close> is not in the source at hand; the
  spec has a wrapping 8-bit counter per node. The value handed out is the current one.
\<close>

definition nextTransactionSequence :: "ZigbeeGateway \<Rightarrow> addr \<Rightarrow> 8 word \<times> ZigbeeGateway" where
  "nextTransactionSequence z n =
     (let node = nodeStore z n; s = transactionSequence node
      in (s, z\<lparr>nodeStore := (nodeStore z)(n := node\<lparr>transactionSequence := s + 1\<rparr>)\<rparr>))"

text \<open>
  The inner loop over the devices' endpoints: the first endpoint whose description, looked
  up in the node's map, lists the Basic cluster. A missing key of a Go map reads as the zero
  value, whose cluster list is empty.
\<close>

definition endpointInClusters :: "(Endpoint \<rightharpoonup> EndpointDescription) \<Rightarrow> Endpoint \<Rightarrow> ClusterID list" where
  "endpointInClusters descriptions endpoint =
     (case descriptions endpoint of None \<Rightarrow> [] | Some d \<Rightarrow> InClusterList d)"

fun findBasicEndpoint :: "(Endpoint \<rightharpoonup> EndpointDescription) \<Rightarrow> Endpoint list \<Rightarrow> bool \<times> Endpoint" where
  "findBasicEndpoint descriptions [] = (False, 0)"
| "findBasicEndpoint descriptions (endpoint # rest) =
     (if isClusterIdInSlice (endpointInClusters descriptions endpoint) 0
      then (True, endpoint)
      else findBasicEndpoint descriptions rest)"

text \<open>The body of the loop over the records: the \<^verbatim>\<open>switch\<close> on the attribute identifier.\<close>

definition recordCase :: "Constants \<Rightarrow> ProductInformation \<Rightarrow> ReadAttributeResponseRecord \<Rightarrow> panic + ProductInformation" where
  "recordCase c info r =
     (if rec_Identifier r = 0x0004 then
        (if rec_Status r = 0 then
           (case rec_Value r of
              StringValue s \<Rightarrow>
                Inr (info\<lparr>Manufacturer := s, Present := Present info OR ManufacturerBit c\<rparr>)
            | OtherValue \<Rightarrow> Inl InterfaceConversion)
         else
           Inr (info\<lparr>Manufacturer := [], Present := Present info AND NOT (ManufacturerBit c)\<rparr>))
      else if rec_Identifier r = 0x0005 then
        (if rec_Status r = 0 then
           (case rec_Value r of
              StringValue s \<Rightarrow>
                Inr (info\<lparr>Name := s, Present := Present info OR NameBit c\<rparr>)
            | OtherValue \<Rightarrow> Inl InterfaceConversion)
         else
           Inr (info\<lparr>Name := [], Present := Present info AND NOT (NameBit c)\<rparr>))
      else Inr info)"

fun forRecords :: "Constants \<Rightarrow> ProductInformation \<Rightarrow> ReadAttributeResponseRecord list \<Rightarrow> panic + ProductInformation" where
  "forRecords c info [] = Inr info"
| "forRecords c info (r # rest) =
     (case recordCase c info r of
        Inl p \<Rightarrow> Inl p
      | Inr info' \<Rightarrow> forRecords c info' rest)"

text \<open>
  The function handed to \<^verbatim>\<open>retry.Retry\<close>: one \<^verbatim>\<open>ReadAttributes\<close> call for the attributes
  0x0004 and 0x0005 of the Basic cluster, from the gateway's endpoint to the endpoint found.
  The records are looked at only when the call returned no error; the error is the result.
\<close>

definition DefaultGatewayHomeAutomationEndpoint :: Endpoint where
  "DefaultGatewayHomeAutomationEndpoint = 0x01"

definition readAttempt :: "Constants \<Rightarrow> ReadAttributes \<Rightarrow> addr \<Rightarrow> addr \<Rightarrow> Endpoint \<Rightarrow> ZigbeeGateway \<Rightarrow> panic + (error option \<times> ZigbeeGateway)" where
  "readAttempt c zcl n a foundEndpoint z =
     (let (s, z1) = nextTransactionSequence z n;
          node = nodeStore z n;
          request = \<lparr>req_ieeeAddress = ieeeAddress node, req_requireAck = supportsAPSAck node,
                     req_cluster = 0, req_sourceEndpoint = DefaultGatewayHomeAutomationEndpoint,
                     req_destEndpoint = foundEndpoint, req_transactionSequence = s,
                     req_attributes = [0x0004, 0x0005]\<rparr>;
          answer = zcl (length (zclRequests z1));
          z2 = z1\<lparr>zclRequests := zclRequests z1 @ [request]\<rparr>
      in case answer of
           Inl err \<Rightarrow> Inr (Some err, z2)
         | Inr readRecords \<Rightarrow>
             (let iDev = deviceStore z2 a
              in case forRecords c (productInformation iDev) readRecords of
                   Inl p \<Rightarrow> Inl p
                 | Inr info \<Rightarrow>
                     Inr (None, z2\<lparr>deviceStore :=
                            (deviceStore z2)(a := iDev\<lparr>productInformation := info\<rparr>)\<rparr>)))"

text \<open>
  \<^verbatim>\<open>retry.Retry\<close> is a library outside the repository: it calls the function up to the given
  number of times, stops at the first call that returns no error, and returns the error of
  the last call made (none when no call was made).
\<close>

fun Retry :: "nat \<Rightarrow> ('s \<Rightarrow> panic + (error option \<times> 's)) \<Rightarrow> 's \<Rightarrow> panic + (error option \<times> 's)" where
  "Retry 0 f s = Inr (None, s)"
| "Retry (Suc tries) f s =
     (case f s of
        Inl p \<Rightarrow> Inl p
      | Inr (None, s') \<Rightarrow> Inr (None, s')
      | Inr (Some err, s') \<Rightarrow> (if tries = 0 then Inr (Some err, s') else Retry tries f s'))"

text \<open>
  The body of the loop over the node's devices. An error of the read, after the retries, is
  logged; the capability is added after that, inside \<^verbatim>\<open>if found\<close>.
\<close>

definition deviceBody :: "Constants \<Rightarrow> ReadAttributes \<Rightarrow> addr \<Rightarrow> addr \<Rightarrow> ZigbeeGateway \<Rightarrow> panic + ZigbeeGateway" where
  "deviceBody c zcl n a z =
     (let (found, foundEndpoint) =
            findBasicEndpoint (endpointDescriptions (nodeStore z n)) (endpoints (deviceStore z a))
      in if found then
           (case Retry (DefaultNetworkRetries c) (readAttempt c zcl n a foundEndpoint) z of
              Inl p \<Rightarrow> Inl p
            | Inr (result, z1) \<Rightarrow>
                (let z2 = (case result of
                             Some err \<Rightarrow> z1\<lparr>printed := printed z1 @ [FailedToReadProductInformation err]\<rparr>
                           | None \<Rightarrow> z1);
                     iDev = deviceStore z2 a
                 in Inr (z2\<lparr>deviceStore := (deviceStore z2)
                           (a := iDev\<lparr>device := addCapability (device iDev) HasProductInformationFlag\<rparr>)\<rparr>)))
         else Inr z)"

fun forDevices :: "Constants \<Rightarrow> ReadAttributes \<Rightarrow> addr \<Rightarrow> addr list \<Rightarrow> ZigbeeGateway \<Rightarrow> panic + ZigbeeGateway" where
  "forDevices c zcl n [] z = Inr z"
| "forDevices c zcl n (a # rest) z =
     (case deviceBody c zcl n a z of
        Inl p \<Rightarrow> Inl p
      | Inr z' \<Rightarrow> forDevices c zcl n rest z')"

text \<open>
  \<^verbatim>\<open>NodeEnumerationCallback\<close>, for the node at address \<open>n\<close>: the loop over its devices, then
  \<^verbatim>\<open>return nil\<close>. A panic inside the loop leaves the function without a result. The node
  pointer of the event is an address of the node store, never nil.
\<close>

definition NodeEnumerationCallback :: "Constants \<Rightarrow> ReadAttributes \<Rightarrow> ZigbeeGateway \<Rightarrow> addr \<Rightarrow> panic + (error option \<times> ZigbeeGateway)" where
  "NodeEnumerationCallback c zcl z n =
     (case forDevices c zcl n (node_devices (nodeStore z n)) z of
        Inl p \<Rightarrow> Inl p
      | Inr z' \<Rightarrow> Inr (None, z'))"

section \<open>The node and device store\<close>

text \<open>
  The store operations that the provider handler calls are not in the source at hand. The
  spec gives their signatures (\<^verbatim>\<open>get_node(ieee) -> Option<Node>\<close>, \<^verbatim>\<open>add_node(ieee) -> Node\<close>,
  \<^verbatim>\<open>remove_node(ieee)\<close>, \<^verbatim>\<open>get_device(id) -> Option<Device>\<close>, \<^verbatim>\<open>add_device(id, node)\<close>,
  \<^verbatim>\<open>remove_device(id)\<close>) and what the two device operations do. Each one that writes a
  store records its call in the trace.
\<close>

text \<open>Modelled from the spec: \<^verbatim>\<open>getNode\<close>, the lookup of an address in the node map.\<close>

definition getNode :: "ZigbeeGateway \<Rightarrow> IEEEAddress \<Rightarrow> addr option" where
  "getNode z ieee = nodes z ieee"

text \<open>
  Modelled from the spec: \<^verbatim>\<open>addNode\<close> allocates a node for the address, with no devices and
  no endpoint descriptions, puts it in the node map and returns it.
\<close>

definition addNode :: "ZigbeeGateway \<Rightarrow> IEEEAddress \<Rightarrow> addr \<times> ZigbeeGateway" where
  "addNode z ieee =
     (let n = nextNode z
      in (n, z\<lparr>nodes := (nodes z)(ieee \<mapsto> n),
               nodeStore := (nodeStore z)(n := zeroInternalNode\<lparr>ieeeAddress := ieee\<rparr>),
               nextNode := Suc n,
               trace := trace z @ [AddNode ieee]\<rparr>))"

text \<open>Modelled from the spec: \<^verbatim>\<open>removeNode\<close> takes the address out of the node map.\<close>

definition removeNode :: "ZigbeeGateway \<Rightarrow> IEEEAddress \<Rightarrow> ZigbeeGateway" where
  "removeNode z ieee =
     z\<lparr>nodes := (nodes z)(ieee := None), trace := trace z @ [RemoveNode ieee]\<rparr>"

text \<open>Modelled from the spec: \<^verbatim>\<open>getDevice\<close>, the lookup of an identifier in the device map.\<close>

definition getDevice :: "ZigbeeGateway \<Rightarrow> Identifier \<Rightarrow> addr option" where
  "getDevice z identifier = devices z identifier"

text \<open>Modelled from the spec: the node's \<^verbatim>\<open>getDevices\<close>, its device list as it is now.\<close>

definition getDevices :: "ZigbeeGateway \<Rightarrow> addr \<Rightarrow> addr list" where
  "getDevices z n = node_devices (nodeStore z n)"

text \<open>
  Modelled from the spec: the node's \<^verbatim>\<open>nextDeviceIdentifier\<close>; an identifier is "composed of
  node IEEE address + sub-device index", and the index counts up from 0.
\<close>

definition nextDeviceIdentifier :: "ZigbeeGateway \<Rightarrow> addr \<Rightarrow> Identifier \<times> ZigbeeGateway" where
  "nextDeviceIdentifier z n =
     (let node = nodeStore z n; i = deviceSequence node
      in (IEEEAddressWithSubIdentifier (ieeeAddress node) i,
          z\<lparr>nodeStore := (nodeStore z)(n := node\<lparr>deviceSequence := i + 1\<rparr>)\<rparr>))"

text \<open>
  Modelled from the spec: \<^verbatim>\<open>addDevice\<close> "appends to the owning node's device list and
  registers the identifier in the global map"; the new device is "created with no
  capabilities" and belongs to this gateway and to the node.
\<close>

definition addDevice :: "ZigbeeGateway \<Rightarrow> Identifier \<Rightarrow> addr \<Rightarrow> addr \<times> ZigbeeGateway" where
  "addDevice z identifier n =
     (let a = nextDevice z; node = nodeStore z n
      in (a, z\<lparr>devices := (devices z)(identifier \<mapsto> a),
               deviceStore := (deviceStore z)
                 (a := zeroInternalDevice
                    \<lparr>device := \<lparr>Gateway = Some ThisGateway, Identifier = identifier,
                                Capabilities = []\<rparr>,
                     owner := Some n\<rparr>),
               nodeStore := (nodeStore z)(n := node\<lparr>node_devices := node_devices node @ [a]\<rparr>),
               nextDevice := Suc a,
               trace := trace z @ [AddDevice identifier]\<rparr>))"

text \<open>
  Modelled from the spec: \<^verbatim>\<open>removeDevice\<close> "unregisters both": the identifier from the
  device map and the device from the list of the node that owns it. An identifier that is
  not in the map changes neither.
\<close>

definition removeDevice :: "ZigbeeGateway \<Rightarrow> Identifier \<Rightarrow> ZigbeeGateway" where
  "removeDevice z identifier =
     (let z1 = z\<lparr>trace := trace z @ [RemoveDevice identifier]\<rparr>
      in case devices z identifier of
           None \<Rightarrow> z1
         | Some a \<Rightarrow>
             (let z2 = z1\<lparr>devices := (devices z1)(identifier := None)\<rparr>
              in case owner (deviceStore z a) of
                   None \<Rightarrow> z2
                 | Some n \<Rightarrow>
                     z2\<lparr>nodeStore := (nodeStore z2)
                          (n := (nodeStore z2 n)
                             \<lparr>node_devices := removeAll a (node_devices (nodeStore z2 n))\<rparr>)\<rparr>))"

text \<open>
  \<^verbatim>\<open>callbacks.Call\<close> hands an internal event to the bus. The subscribers are outside the
  source at hand; the call is recorded.
\<close>

definition callbacksCall :: "ZigbeeGateway \<Rightarrow> internalEvent \<Rightarrow> ZigbeeGateway" where
  "callbacksCall z event = z\<lparr>trace := trace z @ [CallbacksCall event]\<rparr>"

section \<open>The provider handler\<close>

datatype ProviderEvent =
    NodeJoinEvent IEEEAddress
  | NodeLeaveEvent IEEEAddress
  | NodeIncomingMessageEvent nat
  | OtherProviderEvent

text \<open>The loop over the devices of a leaving node: \<^verbatim>\<open>removeDevice\<close> of each one's identifier.\<close>

fun removeDevices :: "ZigbeeGateway \<Rightarrow> addr list \<Rightarrow> ZigbeeGateway" where
  "removeDevices z [] = z"
| "removeDevices z (iDev # rest) =
     removeDevices (removeDevice z (Identifier (device (deviceStore z iDev)))) rest"

text \<open>
  The \<^verbatim>\<open>switch\<close> of \<^verbatim>\<open>providerHandler\<close> on the type of the event read; \<open>None\<close> is the nil
  event that comes with an expired context, for which no case matches.
\<close>

definition handleEvent :: "ZigbeeGateway \<Rightarrow> ProviderEvent option \<Rightarrow> ZigbeeGateway" where
  "handleEvent z event =
     (case event of
        Some (NodeJoinEvent ieee) \<Rightarrow>
          (let (iNode, z1) = (case getNode z ieee of
                                Some n \<Rightarrow> (n, z)
                              | None \<Rightarrow> addNode z ieee)
           in if length (getDevices z1 iNode) = 0 then
                (let (initialDeviceId, z2) = nextDeviceIdentifier z1 iNode;
                     (iDev, z3) = addDevice z2 initialDeviceId iNode
                 in callbacksCall z3 (internalNodeJoin iNode))
              else z1)
      | Some (NodeLeaveEvent ieee) \<Rightarrow>
          (case getNode z ieee of
             Some iNode \<Rightarrow>
               (let z1 = callbacksCall z (internalNodeLeave iNode);
                    z2 = removeDevices z1 (getDevices z1 iNode)
                in removeNode z2 ieee)
           | None \<Rightarrow> z)
      | Some (NodeIncomingMessageEvent message) \<Rightarrow>
          z\<lparr>trace := trace z @ [ProcessIncomingMessage message]\<rparr>
      | Some OtherProviderEvent \<Rightarrow> z
      | None \<Rightarrow> z)"

text \<open>
  The loop of \<^verbatim>\<open>providerHandler\<close>, run on the results of the provider's successive
  \<^verbatim>\<open>ReadEvent\<close> calls, each with the state of the stop channel after it. An error other
  than the expired context is logged and ends the loop; a stop signal ends it after the
  event was handled. The run ends with the list.
\<close>

fun providerHandler :: "ZigbeeGateway \<Rightarrow> ((ProviderEvent option \<times> error option) \<times> bool) list \<Rightarrow> ZigbeeGateway" where
  "providerHandler z [] = z"
| "providerHandler z (((event, Some err), stop) # rest) =
     (if err \<noteq> ContextExpired then
        z\<lparr>printed := printed z @ [CouldNotListen err]\<rparr>
      else
        (let z1 = handleEvent z event
         in if stop then z1 else providerHandler z1 rest))"
| "providerHandler z (((event, None), stop) # rest) =
     (let z1 = handleEvent z event
      in if stop then z1 else providerHandler z1 rest)"

section \<open>The device list\<close>

text \<open>
  \<^verbatim>\<open>Devices\<close>: a new slice that starts with the gateway's own device and to which, for each
  node of the map, the \<^verbatim>\<open>device\<close> struct of each device of its list is appended by value.
  The result holds values read from the stores at the time of the call; of a store it keeps
  no address but the pointers of the \<^verbatim>\<open>Capabilities\<close> slices, which the next section models.
  The order in which \<^verbatim>\<open>range\<close> visits the keys of a Go map is not fixed: it is the
  parameter \<open>visit\<close>, which lists the keys.
\<close>

definition devicesOfNode :: "ZigbeeGateway \<Rightarrow> addr \<Rightarrow> Device list" where
  "devicesOfNode z n = map (\<lambda>a. device (deviceStore z a)) (node_devices (nodeStore z n))"

definition Devices :: "IEEEAddress list \<Rightarrow> ZigbeeGateway \<Rightarrow> Device list" where
  "Devices visit z =
     device (self z) #
     concat (map (\<lambda>ieee. case nodes z ieee of
                            None \<Rightarrow> []
                          | Some n \<Rightarrow> devicesOfNode z n) visit)"

section \<open>The capability slices in memory\<close>

text \<open>
  A \<^verbatim>\<open>Device\<close> is copied by value, but its field \<^verbatim>\<open>Capabilities\<close> is a Go slice: a header of
  a pointer, a length and a capacity over a backing array. Copying the struct copies the
  header and not the array, so a \<^verbatim>\<open>Device\<close> returned by \<^verbatim>\<open>Devices\<close> and the \<^verbatim>\<open>device\<close> field of
  the store it was copied from point to the same array. This section models that memory:
  the arrays by address, and for the gateway's own device and for each device of the store
  the header its \<^verbatim>\<open>Capabilities\<close> field holds. The \<open>nil\<close> slice is the zero header.
\<close>

record slice =
  slice_ptr :: addr
  slice_len :: nat
  slice_cap :: nat

definition nilSlice :: slice where
  "nilSlice = \<lparr>slice_ptr = 0, slice_len = 0, slice_cap = 0\<rparr>"

datatype holder = SelfDevice | StoreDevice addr

record Memory =
  headers :: "holder \<Rightarrow> slice"
  arrays :: "addr \<Rightarrow> Capability list"
  nextArray :: addr

text \<open>
  What the Go runtime chooses and the language leaves open: the capacity \<^verbatim>\<open>append\<close> gives
  to the array it allocates for a wanted length (at least that length, hence the \<open>max\<close>
  below), and the zero value that fills the unused part.
\<close>

record Runtime =
  growCapacity :: "nat \<Rightarrow> nat"
  zeroCapability :: Capability

text \<open>The elements of a slice: the first \<open>slice_len\<close> elements of its array.\<close>

definition readSlice :: "Memory \<Rightarrow> slice \<Rightarrow> Capability list" where
  "readSlice m s = take (slice_len s) (arrays m (slice_ptr s))"

text \<open>
  The composite literal \<^verbatim>\<open>[]Capability{...}\<close> allocates an array of its own. The built-in
  \<^verbatim>\<open>append(s, x)\<close> writes \<open>x\<close> into the array of \<open>s\<close> at index \<open>len(s)\<close> when the capacity
  allows, and otherwise copies the elements to a new, larger array; in both cases it
  returns the new header and leaves \<open>s\<close> itself as it was.
\<close>

definition sliceLiteral :: "Capability list \<Rightarrow> Memory \<Rightarrow> slice \<times> Memory" where
  "sliceLiteral xs m =
     (\<lparr>slice_ptr = nextArray m, slice_len = length xs, slice_cap = length xs\<rparr>,
      m\<lparr>arrays := (arrays m)(nextArray m := xs), nextArray := Suc (nextArray m)\<rparr>)"

definition appendSlice :: "Runtime \<Rightarrow> slice \<Rightarrow> Capability \<Rightarrow> Memory \<Rightarrow> slice \<times> Memory" where
  "appendSlice rt s x m =
     (if slice_len s < slice_cap s then
        (s\<lparr>slice_len := Suc (slice_len s)\<rparr>,
         m\<lparr>arrays := (arrays m)
              (slice_ptr s := (arrays m (slice_ptr s))[slice_len s := x])\<rparr>)
      else
        (let newCap = max (Suc (slice_len s)) (growCapacity rt (Suc (slice_len s)));
             a = nextArray m
         in (\<lparr>slice_ptr = a, slice_len = Suc (slice_len s), slice_cap = newCap\<rparr>,
             m\<lparr>arrays := (arrays m)
                  (a := readSlice m s @ [x]
                        @ replicate (newCap - Suc (slice_len s)) (zeroCapability rt)),
               nextArray := Suc a\<rparr>)))"

text \<open>The assignment \<^verbatim>\<open>x.Capabilities = s\<close> of a header to the field of a device.\<close>

definition setHeader :: "holder \<Rightarrow> slice \<times> Memory \<Rightarrow> Memory" where
  "setHeader x r = (snd r)\<lparr>headers := (headers (snd r))(x := fst r)\<rparr>"

text \<open>The memory \<^verbatim>\<open>New\<close> starts from: every \<^verbatim>\<open>Capabilities\<close> field is \<open>nil\<close>.\<close>

definition NewMemory :: Memory where
  "NewMemory = \<lparr>headers = (\<lambda>x. nilSlice), arrays = (\<lambda>a. []), nextArray = 0\<rparr>"

text \<open>
  What each function that writes a \<^verbatim>\<open>Capabilities\<close> field does to the memory, beside what
  it does to the values. \<^verbatim>\<open>Start\<close> assigns the literal \<^verbatim>\<open>[]Capability{DeviceDiscoveryFlag}\<close> to
  the gateway's own device.

  Modelled from the spec: \<^verbatim>\<open>addDevice\<close> and \<^verbatim>\<open>addCapability\<close> are not in the source at hand.
  The device that \<^verbatim>\<open>addDevice\<close> creates has no capabilities (the \<open>nil\<close> slice of a new struct);
  \<^verbatim>\<open>addCapability\<close> attaches a capability the device does not have yet, with \<^verbatim>\<open>append\<close> on
  the device's own field, and removes or overwrites none.
\<close>

definition StartMemory :: "Memory \<Rightarrow> Memory" where
  "StartMemory m = setHeader SelfDevice (sliceLiteral [DeviceDiscoveryFlag] m)"

definition addDeviceMemory :: "ZigbeeGateway \<Rightarrow> Memory \<Rightarrow> Memory" where
  "addDeviceMemory z m = setHeader (StoreDevice (nextDevice z)) (nilSlice, m)"

definition addCapabilityMemory :: "Runtime \<Rightarrow> holder \<Rightarrow> Capability \<Rightarrow> Memory \<Rightarrow> Memory" where
  "addCapabilityMemory rt x capability m =
     (if capability \<in> set (readSlice m (headers m x)) then m
      else setHeader x (appendSlice rt (headers m x) capability m))"

text \<open>
  The memory after one event of the provider handler, and after the body of the enumeration
  callback for one device: they follow \<open>handleEvent\<close> and \<open>deviceBody\<close> branch by branch
  and write where those call \<^verbatim>\<open>addDevice\<close> and \<^verbatim>\<open>addCapability\<close>.
\<close>

definition handleEventMemory :: "ZigbeeGateway \<Rightarrow> ProviderEvent option \<Rightarrow> Memory \<Rightarrow> Memory" where
  "handleEventMemory z event m =
     (case event of
        Some (NodeJoinEvent ieee) \<Rightarrow>
          (let (iNode, z1) = (case getNode z ieee of
                                Some n \<Rightarrow> (n, z)
                              | None \<Rightarrow> addNode z ieee)
           in if length (getDevices z1 iNode) = 0 then
                (let (initialDeviceId, z2) = nextDeviceIdentifier z1 iNode
                 in addDeviceMemory z2 m)
              else m)
      | _ \<Rightarrow> m)"

definition deviceBodyMemory :: "Runtime \<Rightarrow> ZigbeeGateway \<Rightarrow> addr \<Rightarrow> addr \<Rightarrow> Memory \<Rightarrow> Memory" where
  "deviceBodyMemory rt z n a m =
     (let (found, foundEndpoint) =
            findBasicEndpoint (endpointDescriptions (nodeStore z n)) (endpoints (deviceStore z a))
      in if found then addCapabilityMemory rt (StoreDevice a) HasProductInformationFlag m
         else m)"

text \<open>
  The states the gateway can reach from a state \<open>z0\<close> with memory \<open>m0\<close>: by \<^verbatim>\<open>Start\<close>, by an
  event of the provider handler (a join adds a node and a device, a leave removes them), by
  \<^verbatim>\<open>sendEvent\<close> and \<^verbatim>\<open>ReadEvent\<close>, and by the enumeration callback's body for a device, with
  any answers to its reads, when it returns.
\<close>

inductive mutations :: "Runtime \<Rightarrow> ZigbeeGateway \<Rightarrow> Memory \<Rightarrow> ZigbeeGateway \<Rightarrow> Memory \<Rightarrow> bool"
  for rt :: Runtime and z0 :: ZigbeeGateway and m0 :: Memory where
  none: "mutations rt z0 m0 z0 m0"
| start: "mutations rt z0 m0 z m \<Longrightarrow>
     mutations rt z0 m0 (snd (Start provider z)) (StartMemory m)"
| handle: "mutations rt z0 m0 z m \<Longrightarrow>
     mutations rt z0 m0 (handleEvent z event) (handleEventMemory z event m)"
| send: "mutations rt z0 m0 z m \<Longrightarrow> mutations rt z0 m0 (sendEvent z e) m"
| read: "mutations rt z0 m0 z m \<Longrightarrow> mutations rt z0 m0 (snd (ReadEvent z)) m"
| enumerate: "mutations rt z0 m0 z m \<Longrightarrow> deviceBody c zcl n a z = Inr z' \<Longrightarrow>
     mutations rt z0 m0 z' (deviceBodyMemory rt z n a m)"

text \<open>
  A memory is well formed when every header lies within its array, on an allocated address,
  and no two devices hold headers on the same array. A gateway state and a memory are
  coherent when the \<open>Capabilities\<close> list of each device is what its header reads.
\<close>

definition wellFormed :: "Memory \<Rightarrow> bool" where
  "wellFormed m =
     ((\<forall>x. slice_len (headers m x) \<le> slice_cap (headers m x)
           \<and> (0 < slice_cap (headers m x) \<longrightarrow>
                slice_ptr (headers m x) < nextArray m
                \<and> slice_cap (headers m x) = length (arrays m (slice_ptr (headers m x)))))
      \<and> (\<forall>x y. 0 < slice_cap (headers m x) \<and> 0 < slice_cap (headers m y)
                \<and> slice_ptr (headers m x) = slice_ptr (headers m y) \<longrightarrow> x = y))"

definition coherent :: "ZigbeeGateway \<Rightarrow> Memory \<Rightarrow> bool" where
  "coherent z m =
     (Capabilities (device (self z)) = readSlice m (headers m SelfDevice)
      \<and> (\<forall>a. Capabilities (device (deviceStore z a)) = readSlice m (headers m (StoreDevice a))))"

text \<open>
  The headers of the memory \<open>m0\<close> are intact in a later memory \<open>m\<close> when each of them reads
  in \<open>m\<close> what it read in \<open>m0\<close>, and a device that now holds a header on the same array
  holds one at least as long: the next \<^verbatim>\<open>append\<close> through it writes beyond the old header.
\<close>

definition intact :: "Memory \<Rightarrow> Memory \<Rightarrow> bool" where
  "intact m0 m =
     (\<forall>x. readSlice m (headers m0 x) = readSlice m0 (headers m0 x)
          \<and> (0 < slice_len (headers m0 x) \<longrightarrow>
               slice_ptr (headers m0 x) < nextArray m
               \<and> (\<forall>y. 0 < slice_cap (headers m y)
                      \<and> slice_ptr (headers m y) = slice_ptr (headers m0 x) \<longrightarrow>
                      slice_len (headers m0 x) \<le> slice_len (headers m y))))"

text \<open>
  The \<^verbatim>\<open>Device\<close> struct as it lies in memory, with the header in place of the list, and the
  result of \<^verbatim>\<open>Devices\<close> as a slice of such structs: \<^verbatim>\<open>[]Device{z.self.device}\<close> and
  \<^verbatim>\<open>append(devices, device.device)\<close> copy each struct, header included. \<open>readDevice\<close> is what
  a caller sees of such a struct in a given memory.
\<close>

record DeviceStruct =
  ds_Gateway :: "GatewayRef option"
  ds_Identifier :: Identifier
  ds_Capabilities :: slice

definition structOf :: "Device \<Rightarrow> slice \<Rightarrow> DeviceStruct" where
  "structOf d s = \<lparr>ds_Gateway = Gateway d, ds_Identifier = Identifier d, ds_Capabilities = s\<rparr>"

definition readDevice :: "Memory \<Rightarrow> DeviceStruct \<Rightarrow> Device" where
  "readDevice m d =
     \<lparr>Gateway = ds_Gateway d, Identifier = ds_Identifier d,
      Capabilities = readSlice m (ds_Capabilities d)\<rparr>"

definition DevicesMemory :: "IEEEAddress list \<Rightarrow> ZigbeeGateway \<Rightarrow> Memory \<Rightarrow> DeviceStruct list" where
  "DevicesMemory visit z m =
     structOf (device (self z)) (headers m SelfDevice) #
     concat (map (\<lambda>ieee. case nodes z ieee of
                            None \<Rightarrow> []
                          | Some n \<Rightarrow>
                              map (\<lambda>a. structOf (device (deviceStore z a))
                                         (headers m (StoreDevice a)))
                                  (node_devices (nodeStore z n))) visit)"

section \<open>The device discovery capability\<close>

text \<open>
  \<^verbatim>\<open>ZigbeeDeviceDiscovery\<close> is not in the source at hand, only its tests are: the two that
  make the provider fail expect the provider's error back and the \<^verbatim>\<open>Discovering\<close> status as
  it was. The spec: all operations "reject a device whose identifier does not match the
  Self device" with the error \<open>NotSelfDevice\<close>; \<^verbatim>\<open>allow\<close> "calls provider
  \<^verbatim>\<open>permit_join(true)\<close>; if it already was permitting, the expiry is extended", so that the
  "effective expiry" of two calls is the later one, and "emits \<^verbatim>\<open>DeviceDiscoveryAllowed\<close>";
  \<^verbatim>\<open>deny\<close> "calls provider \<^verbatim>\<open>deny_join()\<close>; emits \<^verbatim>\<open>DeviceDiscoveryDenied\<close>; clears
  expiry"; "if the provider call fails, internal state is not mutated and the error is
  returned verbatim". Times and durations are natural numbers of one unit; \<open>now\<close> is the
  time of the call.
\<close>

text \<open>
  Modelled from the spec: the state of the capability, the flag and the expiry of the
  running allow-window, if any.
\<close>

record DeviceDiscovery =
  discovering :: bool
  allowExpiry :: "nat option"

text \<open>
  Modelled from the spec: \<^verbatim>\<open>Allow\<close>; the device's identifier is compared first, the provider
  is called next, and only a call without error writes the state and emits the event.
\<close>

definition Allow :: "Provider \<Rightarrow> nat \<Rightarrow> DeviceDiscovery \<times> ZigbeeGateway \<Rightarrow> Device \<Rightarrow> nat \<Rightarrow> error option \<times> DeviceDiscovery \<times> ZigbeeGateway" where
  "Allow provider now s dev duration =
     (let (zdd, z) = s
      in if Identifier dev \<noteq> Identifier (Self z) then (Some NotSelfDevice, zdd, z)
         else case PermitJoin provider of
                Some err \<Rightarrow> (Some err, zdd, z)
              | None \<Rightarrow>
                  (None,
                   zdd\<lparr>discovering := True,
                       allowExpiry := Some (case allowExpiry zdd of
                                              None \<Rightarrow> now + duration
                                            | Some t \<Rightarrow> max t (now + duration))\<rparr>,
                   sendEvent z (DeviceDiscoveryAllowed dev duration)))"

text \<open>Modelled from the spec: \<^verbatim>\<open>Deny\<close>, in the same order.\<close>

definition Deny :: "Provider \<Rightarrow> DeviceDiscovery \<times> ZigbeeGateway \<Rightarrow> Device \<Rightarrow> error option \<times> DeviceDiscovery \<times> ZigbeeGateway" where
  "Deny provider s dev =
     (let (zdd, z) = s
      in if Identifier dev \<noteq> Identifier (Self z) then (Some NotSelfDevice, zdd, z)
         else case DenyJoin provider of
                Some err \<Rightarrow> (Some err, zdd, z)
              | None \<Rightarrow>
                  (None,
                   zdd\<lparr>discovering := False, allowExpiry := None\<rparr>,
                   sendEvent z (DeviceDiscoveryDenied dev)))"

section \<open>Predicates and example states used in the statements\<close>

text \<open>
  The records of a response that belong to one attribute, in the order of the response:
  the handler applies them one after the other, so the last one decides the field.
\<close>

definition recordsFor :: "AttributeID \<Rightarrow> ReadAttributeResponseRecord list \<Rightarrow> ReadAttributeResponseRecord list" where
  "recordsFor attribute records = filter (\<lambda>r. rec_Identifier r = attribute) records"

text \<open>
  A record is well typed when its value, if the handler reads it (attribute 0x0004 or
  0x0005 with status 0), is a string; the answers of the communicator are well typed when
  every record of every response is.
\<close>

definition recordWellTyped :: "ReadAttributeResponseRecord \<Rightarrow> bool" where
  "recordWellTyped r =
     ((rec_Identifier r = 0x0004 \<or> rec_Identifier r = 0x0005) \<and> rec_Status r = 0
        \<longrightarrow> rec_Value r \<noteq> OtherValue)"

definition answersWellTyped :: "ReadAttributes \<Rightarrow> bool" where
  "answersWellTyped zcl = (\<forall>i records. zcl i = Inr records \<longrightarrow> list_all recordWellTyped records)"

text \<open>
  The device at \<open>a\<close> has an endpoint whose description in the node at \<open>n\<close> lists the Basic
  cluster 0x0000 among its in-clusters.
\<close>

definition advertisesBasic :: "ZigbeeGateway \<Rightarrow> addr \<Rightarrow> addr \<Rightarrow> bool" where
  "advertisesBasic z n a =
     (\<exists>endpoint \<in> set (endpoints (deviceStore z a)).
        0 \<in> set (endpointInClusters (endpointDescriptions (nodeStore z n)) endpoint))"

text \<open>
  What the enumeration callback leaves as it is: everything but the product information of
  the devices, the nodes' transaction sequences, the requests made and the log; the
  capabilities of a device only grow.
\<close>

definition preserved :: "ZigbeeGateway \<Rightarrow> ZigbeeGateway \<Rightarrow> bool" where
  "preserved z z' =
     (self z' = self z \<and> events z' = events z \<and> capabilities z' = capabilities z
      \<and> devices z' = devices z \<and> nodes z' = nodes z \<and> trace z' = trace z
      \<and> (\<forall>a. endpoints (deviceStore z' a) = endpoints (deviceStore z a)
             \<and> owner (deviceStore z' a) = owner (deviceStore z a)
             \<and> set (Capabilities (device (deviceStore z a)))
                 \<subseteq> set (Capabilities (device (deviceStore z' a))))
      \<and> (\<forall>n. endpointDescriptions (nodeStore z' n) = endpointDescriptions (nodeStore z n)
             \<and> node_devices (nodeStore z' n) = node_devices (nodeStore z n)))"

text \<open>
  Example inputs. The present-bits are two distinct bits and five attempts are made. A node
  0xAABB joins a new gateway; after its enumeration the node has the endpoint 0x01 with the
  in-clusters Basic and OnOff, which is the endpoint of its one device. The communicator
  answers every read with both attributes, or with the model name unsupported (status
  0x86), or not at all, or with a value that is not a string.
\<close>

definition exampleConstants :: Constants where
  "exampleConstants = \<lparr>ManufacturerBit = 1, NameBit = 2, DefaultNetworkRetries = 5\<rparr>"

definition joinedGateway :: ZigbeeGateway where
  "joinedGateway = handleEvent New (Some (NodeJoinEvent 0xAABB))"

definition enumeratedGateway :: ZigbeeGateway where
  "enumeratedGateway =
     joinedGateway
       \<lparr>nodeStore := (nodeStore joinedGateway)
          (0 := (nodeStore joinedGateway 0)
             \<lparr>endpointDescriptions :=
                [0x01 \<mapsto> \<lparr>InClusterList = [0x0000, 0x0006], OutClusterList = []\<rparr>]\<rparr>),
        deviceStore := (deviceStore joinedGateway)
          (0 := (deviceStore joinedGateway 0)\<lparr>endpoints := [0x01]\<rparr>)\<rparr>"

definition answersComplete :: ReadAttributes where
  "answersComplete i =
     Inr [\<lparr>rec_Identifier = 0x0004, rec_Status = 0, rec_Value = StringValue ''Acme''\<rparr>,
          \<lparr>rec_Identifier = 0x0005, rec_Status = 0, rec_Value = StringValue ''Bulb1''\<rparr>]"

definition answersPartial :: ReadAttributes where
  "answersPartial i =
     Inr [\<lparr>rec_Identifier = 0x0004, rec_Status = 0, rec_Value = StringValue ''Acme''\<rparr>,
          \<lparr>rec_Identifier = 0x0005, rec_Status = 0x86, rec_Value = OtherValue\<rparr>]"

definition answersExpired :: ReadAttributes where
  "answersExpired i = Inl ContextExpired"

definition answersManufacturerNumber :: ReadAttributes where
  "answersManufacturerNumber i =
     Inr [\<lparr>rec_Identifier = 0x0004, rec_Status = 0, rec_Value = OtherValue\<rparr>]"

definition answersNameNumber :: ReadAttributes where
  "answersNameNumber i =
     Inr [\<lparr>rec_Identifier = 0x0004, rec_Status = 0, rec_Value = StringValue ''Acme''\<rparr>,
          \<lparr>rec_Identifier = 0x0005, rec_Status = 0, rec_Value = OtherValue\<rparr>]"

text \<open>A gateway whose event channel is full, and a provider whose join calls fail.\<close>

definition fullGateway :: ZigbeeGateway where
  "fullGateway = New\<lparr>events := replicate 100 (OtherEvent 0)\<rparr>"

definition failingProvider :: Provider where
  "failingProvider =
     \<lparr>AdapterNode = 0x1122, RegisterAdapterEndpoint = None,
      PermitJoin = Some (ProviderError ''permit join failure''),
      DenyJoin = Some (ProviderError ''deny join failure'')\<rparr>"

text \<open>
  A runtime that doubles the capacity, and the enumerated gateway at a moment when its
  device has the \<open>OnOff\<close> capability in an array of capacity two: the next \<^verbatim>\<open>append\<close>
  writes into that very array.
\<close>

definition exampleRuntime :: Runtime where
  "exampleRuntime = \<lparr>growCapacity = (\<lambda>n. 2 * n), zeroCapability = OtherFlag 0\<rparr>"

definition onOffGateway :: ZigbeeGateway where
  "onOffGateway =
     enumeratedGateway
       \<lparr>deviceStore := (deviceStore enumeratedGateway)
          (0 := (deviceStore enumeratedGateway 0)
             \<lparr>device := (device (deviceStore enumeratedGateway 0))
                \<lparr>Capabilities := [OnOffFlag]\<rparr>\<rparr>)\<rparr>"

definition onOffMemory :: Memory where
  "onOffMemory =
     \<lparr>headers = (headers NewMemory)
        (StoreDevice 0 := \<lparr>slice_ptr = 0, slice_len = 1, slice_cap = 2\<rparr>),
      arrays = (arrays NewMemory)(0 := [OnOffFlag, OtherFlag 0]),
      nextArray = 1\<rparr>"


section \<open>Facts about the example states\<close>

lemma joinedGateway_simps:
  "nodes joinedGateway = [0xAABB \<mapsto> 0]"
  "node_devices (nodeStore joinedGateway 0) = [0]"
  "zclRequests joinedGateway = []"
  "printed joinedGateway = []"
  "endpoints (deviceStore joinedGateway 0) = []"
  "device (deviceStore joinedGateway 0) =
     \<lparr>Gateway = Some ThisGateway, Identifier = IEEEAddressWithSubIdentifier 0xAABB 0,
      Capabilities = []\<rparr>"
  "productInformation (deviceStore joinedGateway 0) = zeroProductInformation"
  "self joinedGateway = zeroInternalDevice"
  by (simp_all add: joinedGateway_def handleEvent_def getNode_def getDevices_def
        addNode_def nextDeviceIdentifier_def addDevice_def callbacksCall_def New_def Let_def
        zeroInternalNode_def zeroInternalDevice_def)

lemma enumeratedGateway_simps:
  "node_devices (nodeStore enumeratedGateway 0) = [0]"
  "endpointDescriptions (nodeStore enumeratedGateway 0) =
     [0x01 \<mapsto> \<lparr>InClusterList = [0x0000, 0x0006], OutClusterList = []\<rparr>]"
  "endpoints (deviceStore enumeratedGateway 0) = [0x01]"
  "zclRequests enumeratedGateway = []"
  "printed enumeratedGateway = []"
  "productInformation (deviceStore enumeratedGateway 0) = zeroProductInformation"
  "self enumeratedGateway = zeroInternalDevice"
  by (simp_all add: enumeratedGateway_def joinedGateway_simps)

lemma enumeratedGateway_advertisesBasic: "advertisesBasic enumeratedGateway 0 0"
  by (simp add: advertisesBasic_def enumeratedGateway_simps endpointInClusters_def)

lemma answersComplete_wellTyped: "answersWellTyped answersComplete"
  by (simp add: answersWellTyped_def answersComplete_def recordWellTyped_def)

lemma answersPartial_wellTyped: "answersWellTyped answersPartial"
  by (auto simp: answersWellTyped_def answersPartial_def recordWellTyped_def)

lemma answersExpired_wellTyped: "answersWellTyped answersExpired"
  by (simp add: answersWellTyped_def answersExpired_def)

section \<open>Properties of the present mask\<close>

text \<open>
  Setting a bit with \<open>OR\<close> and clearing it with \<open>AND NOT\<close>, read back with \<open>AND\<close>; a
  second, disjoint bit does not see either.
\<close>

lemma or_and_same: "((p::8 word) OR m) AND m = m"
  by (simp add: bit_eq_iff bit_simps)

lemma and_not_and_same: "((p::8 word) AND NOT m) AND m = 0"
  by (simp add: bit_eq_iff bit_simps)

lemma or_and_other: "(m::8 word) AND b = 0 \<Longrightarrow> (p OR m) AND b = p AND b"
  by (simp add: bit.conj_disj_distrib2)

lemma and_not_and_other: "(m::8 word) AND b = 0 \<Longrightarrow> (p AND NOT m) AND b = p AND b"
proof -
  assume d: "m AND b = 0"
  have "\<not> (bit m k \<and> bit b k)" for k
  proof -
    have "bit (m AND b) k = bit (0::8 word) k" using d by simp
    then show ?thesis by (simp add: bit_and_iff)
  qed
  then show ?thesis
    by (auto simp: bit_eq_iff bit_simps)
qed

section \<open>Properties of the loop over the records\<close>

lemma forRecords_snoc:
  "forRecords c info (rs @ [r]) =
     (case forRecords c info rs of Inl p \<Rightarrow> Inl p | Inr info' \<Rightarrow> recordCase c info' r)"
  by (induction rs arbitrary: info) (auto split: sum.splits)

lemma recordCase_Name:
  assumes "recordCase c i r = Inr info" and "ManufacturerBit c AND NameBit c = 0"
  shows "(rec_Identifier r = 0x0005 \<longrightarrow>
           (rec_Status r \<noteq> 0 \<longrightarrow> Name info = [] \<and> Present info AND NameBit c = 0)
           \<and> (rec_Status r = 0 \<longrightarrow> rec_Value r = StringValue (Name info)
                 \<and> Present info AND NameBit c = NameBit c))
       \<and> (rec_Identifier r \<noteq> 0x0005 \<longrightarrow>
            Name info = Name i \<and> Present info AND NameBit c = Present i AND NameBit c)"
  using assms
  by (cases "rec_Value r")
     (auto simp: recordCase_def or_and_same and_not_and_same or_and_other and_not_and_other
           split: if_splits)

lemma recordCase_Manufacturer:
  assumes "recordCase c i r = Inr info" and "ManufacturerBit c AND NameBit c = 0"
  shows "(rec_Identifier r = 0x0004 \<longrightarrow>
           (rec_Status r \<noteq> 0 \<longrightarrow> Manufacturer info = []
                 \<and> Present info AND ManufacturerBit c = 0)
           \<and> (rec_Status r = 0 \<longrightarrow> rec_Value r = StringValue (Manufacturer info)
                 \<and> Present info AND ManufacturerBit c = ManufacturerBit c))
       \<and> (rec_Identifier r \<noteq> 0x0004 \<longrightarrow>
            Manufacturer info = Manufacturer i
            \<and> Present info AND ManufacturerBit c = Present i AND ManufacturerBit c)"
proof -
  have d: "NameBit c AND ManufacturerBit c = 0"
    using assms(2) by (simp add: and.commute)
  show ?thesis
    using assms(1) d
    by (cases "rec_Value r")
       (auto simp: recordCase_def or_and_same and_not_and_same or_and_other and_not_and_other
             split: if_splits)
qed

lemma forRecords_Name:
  assumes "ManufacturerBit c AND NameBit c = 0"
  shows "forRecords c info0 rs = Inr info \<Longrightarrow> recordsFor 0x0005 rs \<noteq> [] \<Longrightarrow>
     (rec_Status (last (recordsFor 0x0005 rs)) \<noteq> 0 \<longrightarrow>
        Name info = [] \<and> Present info AND NameBit c = 0)
     \<and> (rec_Status (last (recordsFor 0x0005 rs)) = 0 \<longrightarrow>
        rec_Value (last (recordsFor 0x0005 rs)) = StringValue (Name info)
        \<and> Present info AND NameBit c = NameBit c)"
proof (induction rs arbitrary: info rule: rev_induct)
  case Nil
  then show ?case by (simp add: recordsFor_def)
next
  case (snoc r rs)
  from snoc.prems(1) obtain i where rs: "forRecords c info0 rs = Inr i"
    and r: "recordCase c i r = Inr info"
    by (auto simp: forRecords_snoc split: sum.splits)
  note rc = recordCase_Name [OF r assms]
  show ?case
  proof (cases "rec_Identifier r = 0x0005")
    case True
    with rc show ?thesis by (simp add: recordsFor_def)
  next
    case False
    with snoc.prems(2) have ne: "recordsFor 0x0005 rs \<noteq> []"
      by (simp add: recordsFor_def)
    from False have same: "recordsFor 0x0005 (rs @ [r]) = recordsFor 0x0005 rs"
      by (simp add: recordsFor_def)
    from snoc.IH [OF rs ne] rc False show ?thesis
      unfolding same by simp
  qed
qed

lemma forRecords_Manufacturer:
  assumes "ManufacturerBit c AND NameBit c = 0"
  shows "forRecords c info0 rs = Inr info \<Longrightarrow> recordsFor 0x0004 rs \<noteq> [] \<Longrightarrow>
     (rec_Status (last (recordsFor 0x0004 rs)) \<noteq> 0 \<longrightarrow>
        Manufacturer info = [] \<and> Present info AND ManufacturerBit c = 0)
     \<and> (rec_Status (last (recordsFor 0x0004 rs)) = 0 \<longrightarrow>
        rec_Value (last (recordsFor 0x0004 rs)) = StringValue (Manufacturer info)
        \<and> Present info AND ManufacturerBit c = ManufacturerBit c)"
proof (induction rs arbitrary: info rule: rev_induct)
  case Nil
  then show ?case by (simp add: recordsFor_def)
next
  case (snoc r rs)
  from snoc.prems(1) obtain i where rs: "forRecords c info0 rs = Inr i"
    and r: "recordCase c i r = Inr info"
    by (auto simp: forRecords_snoc split: sum.splits)
  note rc = recordCase_Manufacturer [OF r assms]
  show ?case
  proof (cases "rec_Identifier r = 0x0004")
    case True
    with rc show ?thesis by (simp add: recordsFor_def)
  next
    case False
    with snoc.prems(2) have ne: "recordsFor 0x0004 rs \<noteq> []"
      by (simp add: recordsFor_def)
    from False have same: "recordsFor 0x0004 (rs @ [r]) = recordsFor 0x0004 rs"
      by (simp add: recordsFor_def)
    from snoc.IH [OF rs ne] rc False show ?thesis
      unfolding same by simp
  qed
qed

lemma recordCase_wellTyped:
  "recordWellTyped r \<Longrightarrow> \<exists>info'. recordCase c info r = Inr info'"
  by (cases "rec_Value r") (auto simp: recordCase_def recordWellTyped_def)

lemma forRecords_wellTyped:
  "list_all recordWellTyped rs \<Longrightarrow> \<exists>info'. forRecords c info rs = Inr info'"
proof (induction rs arbitrary: info)
  case Nil
  then show ?case by simp
next
  case (Cons r rs)
  then obtain i1 where "recordCase c info r = Inr i1"
    using recordCase_wellTyped [of r c info] by auto
  with Cons show ?case by simp
qed

section \<open>Properties of a read attempt and its retries\<close>

text \<open>
  A read attempt changes nothing but the transaction sequence of the node, the list of
  requests and, when it was answered, the product information of the device. The retries
  are told from the communicator's answers: the first answer with records ends them, and
  when every answer is an error the last error is their result.
\<close>

lemma preserved_refl: "preserved z z"
  by (simp add: preserved_def)

lemma preserved_trans: "preserved z z1 \<Longrightarrow> preserved z1 z2 \<Longrightarrow> preserved z z2"
  unfolding preserved_def by (metis subset_trans)

lemma readAttempt_preserved:
  "readAttempt c zcl n a ep z = Inr (r, z') \<Longrightarrow> preserved z z'"
  by (auto simp: readAttempt_def nextTransactionSequence_def Let_def preserved_def
           split: sum.splits)

lemma readAttempt_wellTyped:
  "answersWellTyped zcl \<Longrightarrow> \<exists>r z'. readAttempt c zcl n a ep z = Inr (r, z')"
proof -
  assume wt: "answersWellTyped zcl"
  let ?i = "length (zclRequests z)"
  show ?thesis
  proof (cases "zcl ?i")
    case (Inl e)
    then show ?thesis
      by (simp add: readAttempt_def nextTransactionSequence_def Let_def)
  next
    case (Inr rs)
    with wt have "list_all recordWellTyped rs"
      by (auto simp: answersWellTyped_def)
    then obtain info where
      "forRecords c (productInformation (deviceStore z a)) rs = Inr info"
      using forRecords_wellTyped by blast
    with Inr show ?thesis
      by (simp add: readAttempt_def nextTransactionSequence_def Let_def)
  qed
qed

lemma readAttempt_error:
  assumes "zcl (length (zclRequests z)) = Inl e"
  shows "\<exists>z'. readAttempt c zcl n a ep z = Inr (Some e, z')
           \<and> deviceStore z' = deviceStore z \<and> printed z' = printed z
           \<and> length (zclRequests z') = Suc (length (zclRequests z))"
  using assms by (simp add: readAttempt_def nextTransactionSequence_def Let_def)

lemma readAttempt_answer:
  assumes "zcl (length (zclRequests z)) = Inr rs"
    and "forRecords c (productInformation (deviceStore z a)) rs = Inr info"
  shows "\<exists>z'. readAttempt c zcl n a ep z = Inr (None, z')
           \<and> productInformation (deviceStore z' a) = info
           \<and> device (deviceStore z' a) = device (deviceStore z a)
           \<and> printed z' = printed z"
  using assms by (simp add: readAttempt_def nextTransactionSequence_def Let_def)

lemma Retry_total:
  "(\<And>s. \<exists>r s'. f s = Inr (r, s')) \<Longrightarrow> \<exists>r s'. Retry k f s = Inr (r, s')"
proof (induction k arbitrary: s)
  case 0
  then show ?case by simp
next
  case (Suc k)
  obtain r s1 where f: "f s = Inr (r, s1)" using Suc.prems by blast
  show ?case
  proof (cases r)
    case None
    with f show ?thesis by simp
  next
    case (Some e)
    with f Suc.IH [OF Suc.prems, of s1] show ?thesis by auto
  qed
qed

lemma Retry_rel:
  assumes step: "\<And>s r s'. f s = Inr (r, s') \<Longrightarrow> R s s'"
    and refl: "\<And>s. R s s"
    and trans: "\<And>s s1 s2. R s s1 \<Longrightarrow> R s1 s2 \<Longrightarrow> R s s2"
  shows "Retry k f s = Inr (r, s') \<Longrightarrow> R s s'"
proof (induction k arbitrary: s)
  case 0
  then show ?case using refl by simp
next
  case (Suc k)
  from Suc.prems obtain r1 s1 where f: "f s = Inr (r1, s1)"
    by (auto split: sum.splits)
  show ?case
  proof (cases r1)
    case None
    with f Suc.prems step show ?thesis by auto
  next
    case (Some e)
    show ?thesis
    proof (cases "k = 0")
      case True
      with f Some Suc.prems step show ?thesis by auto
    next
      case False
      with f Some Suc.prems have "Retry k f s1 = Inr (r, s')" by simp
      then have "R s1 s'" by (rule Suc.IH)
      with step [OF f] trans show ?thesis by blast
    qed
  qed
qed

lemma Retry_answer_at:
  "k < tries \<Longrightarrow> (\<forall>j<k. isl (zcl (length (zclRequests z) + j))) \<Longrightarrow>
   zcl (length (zclRequests z) + k) = Inr rs \<Longrightarrow>
   forRecords c (productInformation (deviceStore z a)) rs = Inr info \<Longrightarrow>
   \<exists>z'. Retry tries (readAttempt c zcl n a ep) z = Inr (None, z')
         \<and> productInformation (deviceStore z' a) = info
         \<and> device (deviceStore z' a) = device (deviceStore z a)
         \<and> printed z' = printed z"
proof (induction k arbitrary: tries z)
  case 0
  then obtain t where t: "tries = Suc t" by (cases tries) auto
  from 0 obtain z' where "readAttempt c zcl n a ep z = Inr (None, z')"
    "productInformation (deviceStore z' a) = info"
    "device (deviceStore z' a) = device (deviceStore z a)" "printed z' = printed z"
    using readAttempt_answer [of zcl z rs c a info n ep] by auto
  with t show ?case by simp
next
  case (Suc k)
  then obtain t where t: "tries = Suc t" and kt: "k < t" by (cases tries) auto
  from Suc.prems(2) have "isl (zcl (length (zclRequests z)))"
    by (metis add.right_neutral zero_less_Suc)
  then obtain e where e: "zcl (length (zclRequests z)) = Inl e"
    by (cases "zcl (length (zclRequests z))") auto
  from e readAttempt_error [of zcl z e c n a ep] obtain z1 where
    a1: "readAttempt c zcl n a ep z = Inr (Some e, z1)"
    and d1: "deviceStore z1 = deviceStore z" and p1: "printed z1 = printed z"
    and l1: "length (zclRequests z1) = Suc (length (zclRequests z))"
    by blast
  have "\<forall>j<k. isl (zcl (length (zclRequests z1) + j))"
    using Suc.prems(2) l1 by (metis Suc_less_eq add_Suc_shift)
  moreover have "zcl (length (zclRequests z1) + k) = Inr rs"
    using Suc.prems(3) l1 by simp
  moreover have "forRecords c (productInformation (deviceStore z1 a)) rs = Inr info"
    using Suc.prems(4) d1 by simp
  ultimately obtain z' where
    "Retry t (readAttempt c zcl n a ep) z1 = Inr (None, z')"
    "productInformation (deviceStore z' a) = info"
    "device (deviceStore z' a) = device (deviceStore z1 a)" "printed z' = printed z1"
    using Suc.IH [OF kt, of z1] by blast
  with a1 t kt d1 p1 show ?case by auto
qed

lemma Retry_all_errors:
  "0 < tries \<Longrightarrow> (\<forall>j<tries. isl (zcl (length (zclRequests z) + j))) \<Longrightarrow>
   \<exists>z'. Retry tries (readAttempt c zcl n a ep) z
           = Inr (Some (projl (zcl (length (zclRequests z) + (tries - 1)))), z')
         \<and> deviceStore z' = deviceStore z \<and> printed z' = printed z"
proof (induction tries arbitrary: z)
  case 0
  then show ?case by simp
next
  case (Suc t)
  from Suc.prems(2) have "isl (zcl (length (zclRequests z)))"
    by (metis add.right_neutral zero_less_Suc)
  then obtain e where e: "zcl (length (zclRequests z)) = Inl e"
    by (cases "zcl (length (zclRequests z))") auto
  from e readAttempt_error [of zcl z e c n a ep] obtain z1 where
    a1: "readAttempt c zcl n a ep z = Inr (Some e, z1)"
    and d1: "deviceStore z1 = deviceStore z" and p1: "printed z1 = printed z"
    and l1: "length (zclRequests z1) = Suc (length (zclRequests z))"
    by blast
  show ?case
  proof (cases "t = 0")
    case True
    with a1 e d1 p1 show ?thesis by simp
  next
    case False
    have "\<forall>j<t. isl (zcl (length (zclRequests z1) + j))"
      using Suc.prems(2) l1 by (metis Suc_less_eq add_Suc_shift)
    with False obtain z' where
      "Retry t (readAttempt c zcl n a ep) z1
         = Inr (Some (projl (zcl (length (zclRequests z1) + (t - 1)))), z')"
      "deviceStore z' = deviceStore z1" "printed z' = printed z1"
      using Suc.IH [of z1] by auto
    with a1 False d1 p1 l1 show ?thesis by (cases t) auto
  qed
qed

text \<open>
  Claim C1. During the product-information read, each returned record is handled by its
  attribute. For attribute 0x0004: with status 0 the returned string becomes the
  \<open>Manufacturer\<close> field and the Manufacturer present-bit is set; with any other status the
  field becomes the empty string and the bit is cleared. For attribute 0x0005 the same holds
  of the \<open>Name\<close> field and the Name present-bit. The records of a response are handled one
  after the other, each on the product information the ones before it left, and the
  outcome of the last is what a read attempt that got the response writes to the device.
\<close>

theorem recordCase_per_attribute:
  "(rec_Identifier r = 0x0004 \<and> rec_Status r = 0 \<and> rec_Value r = StringValue s \<longrightarrow>
      (\<exists>info'. recordCase c info r = Inr info' \<and> Manufacturer info' = s
         \<and> Present info' AND ManufacturerBit c = ManufacturerBit c))
   \<and> (rec_Identifier r = 0x0004 \<and> rec_Status r \<noteq> 0 \<longrightarrow>
      (\<exists>info'. recordCase c info r = Inr info' \<and> Manufacturer info' = []
         \<and> Present info' AND ManufacturerBit c = 0))
   \<and> (rec_Identifier r = 0x0005 \<and> rec_Status r = 0 \<and> rec_Value r = StringValue s \<longrightarrow>
      (\<exists>info'. recordCase c info r = Inr info' \<and> Name info' = s
         \<and> Present info' AND NameBit c = NameBit c))
   \<and> (rec_Identifier r = 0x0005 \<and> rec_Status r \<noteq> 0 \<longrightarrow>
      (\<exists>info'. recordCase c info r = Inr info' \<and> Name info' = []
         \<and> Present info' AND NameBit c = 0))
   \<and> forRecords c info (rs @ [r]) =
       (case forRecords c info rs of Inl p \<Rightarrow> Inl p | Inr info' \<Rightarrow> recordCase c info' r)
   \<and> (zcl (length (zclRequests z)) = Inr rs
        \<and> forRecords c (productInformation (deviceStore z a)) rs = Inr info \<longrightarrow>
      (\<exists>z'. readAttempt c zcl n a foundEndpoint z = Inr (None, z')
         \<and> productInformation (deviceStore z' a) = info))"
  using readAttempt_answer [of zcl z rs c a info n foundEndpoint]
  by (auto simp: recordCase_def or_and_same and_not_and_same forRecords_snoc)

theorem recordCase_per_attribute_witness:
  "Manufacturer (projr (recordCase exampleConstants zeroProductInformation
      \<lparr>rec_Identifier = 0x0004, rec_Status = 0, rec_Value = StringValue ''Acme''\<rparr>)) = ''Acme''
   \<and> Present (projr (recordCase exampleConstants zeroProductInformation
      \<lparr>rec_Identifier = 0x0004, rec_Status = 0, rec_Value = StringValue ''Acme''\<rparr>))
        AND ManufacturerBit exampleConstants = ManufacturerBit exampleConstants
   \<and> Manufacturer (projr (recordCase exampleConstants
        \<lparr>Manufacturer = ''Acme'', Name = ''Bulb1'', Present = 3\<rparr>
        \<lparr>rec_Identifier = 0x0004, rec_Status = 0x86, rec_Value = OtherValue\<rparr>)) = []
   \<and> Present (projr (recordCase exampleConstants
        \<lparr>Manufacturer = ''Acme'', Name = ''Bulb1'', Present = 3\<rparr>
        \<lparr>rec_Identifier = 0x0004, rec_Status = 0x86, rec_Value = OtherValue\<rparr>))
        AND ManufacturerBit exampleConstants = 0
   \<and> Name (projr (recordCase exampleConstants zeroProductInformation
      \<lparr>rec_Identifier = 0x0005, rec_Status = 0, rec_Value = StringValue ''Bulb1''\<rparr>)) = ''Bulb1''
   \<and> Present (projr (recordCase exampleConstants zeroProductInformation
      \<lparr>rec_Identifier = 0x0005, rec_Status = 0, rec_Value = StringValue ''Bulb1''\<rparr>))
        AND NameBit exampleConstants = NameBit exampleConstants
   \<and> Name (projr (recordCase exampleConstants
        \<lparr>Manufacturer = ''Acme'', Name = ''Bulb1'', Present = 3\<rparr>
        \<lparr>rec_Identifier = 0x0005, rec_Status = 0x86, rec_Value = OtherValue\<rparr>)) = []
   \<and> Present (projr (recordCase exampleConstants
        \<lparr>Manufacturer = ''Acme'', Name = ''Bulb1'', Present = 3\<rparr>
        \<lparr>rec_Identifier = 0x0005, rec_Status = 0x86, rec_Value = OtherValue\<rparr>))
        AND NameBit exampleConstants = 0
   \<and> (\<exists>z'. readAttempt exampleConstants answersComplete 0 0 0x01 enumeratedGateway
               = Inr (None, z')
          \<and> productInformation (deviceStore z' 0)
              = \<lparr>Manufacturer = ''Acme'', Name = ''Bulb1'', Present = 3\<rparr>)"
proof -
  let ?good4 = "\<lparr>rec_Identifier = 0x0004, rec_Status = 0, rec_Value = StringValue ''Acme''\<rparr>"
  let ?bad4 = "\<lparr>rec_Identifier = 0x0004, rec_Status = 0x86, rec_Value = OtherValue\<rparr>"
  let ?good5 = "\<lparr>rec_Identifier = 0x0005, rec_Status = 0, rec_Value = StringValue ''Bulb1''\<rparr>"
  let ?bad5 = "\<lparr>rec_Identifier = 0x0005, rec_Status = 0x86, rec_Value = OtherValue\<rparr>"
  let ?both = "\<lparr>Manufacturer = ''Acme'', Name = ''Bulb1'', Present = 3\<rparr>"
  have run: "forRecords exampleConstants
        (productInformation (deviceStore enumeratedGateway 0)) [?good4, ?good5] = Inr ?both"
    by (simp add: enumeratedGateway_simps recordCase_def zeroProductInformation_def
          exampleConstants_def)
  have ans: "answersComplete (length (zclRequests enumeratedGateway)) = Inr [?good4, ?good5]"
    by (simp add: answersComplete_def)
  note a = recordCase_per_attribute [where r = ?good4 and s = "''Acme''"
      and c = exampleConstants and info = zeroProductInformation, THEN conjunct1]
  note b = recordCase_per_attribute [where r = ?bad4 and c = exampleConstants and info = ?both,
      THEN conjunct2, THEN conjunct1]
  note c = recordCase_per_attribute [where r = ?good5 and s = "''Bulb1''"
      and c = exampleConstants and info = zeroProductInformation,
      THEN conjunct2, THEN conjunct2, THEN conjunct1]
  note d = recordCase_per_attribute [where r = ?bad5 and c = exampleConstants and info = ?both,
      THEN conjunct2, THEN conjunct2, THEN conjunct2, THEN conjunct1]
  note e = recordCase_per_attribute [where c = exampleConstants and zcl = answersComplete
      and z = enumeratedGateway and rs = "[?good4, ?good5]" and a = 0 and info = ?both
      and n = 0 and foundEndpoint = "0x01",
      THEN conjunct2, THEN conjunct2, THEN conjunct2, THEN conjunct2, THEN conjunct2]
  from a have 1: "Manufacturer (projr (recordCase exampleConstants zeroProductInformation
        ?good4)) = ''Acme''
     \<and> Present (projr (recordCase exampleConstants zeroProductInformation ?good4))
        AND ManufacturerBit exampleConstants = ManufacturerBit exampleConstants"
    by auto
  from b have 2: "Manufacturer (projr (recordCase exampleConstants ?both ?bad4)) = []
     \<and> Present (projr (recordCase exampleConstants ?both ?bad4))
        AND ManufacturerBit exampleConstants = 0"
    by auto
  from c have 3: "Name (projr (recordCase exampleConstants zeroProductInformation
        ?good5)) = ''Bulb1''
     \<and> Present (projr (recordCase exampleConstants zeroProductInformation ?good5))
        AND NameBit exampleConstants = NameBit exampleConstants"
    by auto
  from d have 4: "Name (projr (recordCase exampleConstants ?both ?bad5)) = []
     \<and> Present (projr (recordCase exampleConstants ?both ?bad5))
        AND NameBit exampleConstants = 0"
    by auto
  from e run ans have 5: "\<exists>z'. readAttempt exampleConstants answersComplete 0 0 0x01
        enumeratedGateway = Inr (None, z')
      \<and> productInformation (deviceStore z' 0) = ?both"
    by blast
  from 1 2 3 4 5 show ?thesis by blast
qed

section \<open>Properties of the enumeration callback\<close>

text \<open>
  The loop body of a device: it ends normally when the answers are well typed, keeps what
  \<open>preserved\<close> lists, and attaches the capability when the device has a Basic endpoint.
\<close>

lemma findBasicEndpoint_found:
  "fst (findBasicEndpoint ds es) = (\<exists>e \<in> set es. 0 \<in> set (endpointInClusters ds e))"
  by (induction es) (auto simp: isClusterIdInSlice_def)

lemma findBasicEndpoint_advertises:
  assumes "advertisesBasic z n a"
  shows "\<exists>ep. findBasicEndpoint (endpointDescriptions (nodeStore z n))
                 (endpoints (deviceStore z a)) = (True, ep)"
proof -
  have "fst (findBasicEndpoint (endpointDescriptions (nodeStore z n))
               (endpoints (deviceStore z a)))"
    using assms by (simp add: findBasicEndpoint_found advertisesBasic_def)
  then show ?thesis
    by (cases "findBasicEndpoint (endpointDescriptions (nodeStore z n))
                 (endpoints (deviceStore z a))") auto
qed

lemma addCapability_mem: "capability \<in> set (Capabilities (addCapability d capability))"
  by (simp add: addCapability_def)

lemma addCapability_keeps:
  "x \<in> set (Capabilities d) \<Longrightarrow> x \<in> set (Capabilities (addCapability d capability))"
  by (auto simp: addCapability_def)

lemma deviceBody_preserved:
  assumes "deviceBody c zcl n a z = Inr z'"
  shows "preserved z z'"
proof (cases "fst (findBasicEndpoint (endpointDescriptions (nodeStore z n)) (endpoints (deviceStore z a)))")
  case False
  with assms show ?thesis
    by (auto simp: deviceBody_def preserved_refl split: prod.splits)
next
  case True
  obtain ep where fb: "findBasicEndpoint (endpointDescriptions (nodeStore z n)) (endpoints (deviceStore z a)) = (True, ep)"
    using True by (cases "findBasicEndpoint (endpointDescriptions (nodeStore z n)) (endpoints (deviceStore z a))") auto
  from assms fb obtain r z1 where
    rt: "Retry (DefaultNetworkRetries c) (readAttempt c zcl n a ep) z = Inr (r, z1)"
    by (auto simp: deviceBody_def split: sum.splits)
  have p1: "preserved z z1"
    by (rule Retry_rel [where R = preserved and f = "readAttempt c zcl n a ep", OF _ _ _ rt])
       (blast intro: readAttempt_preserved preserved_refl preserved_trans)+
  have "preserved z1 z'"
    using assms fb rt
    by (cases r) (auto simp: deviceBody_def Let_def preserved_def addCapability_keeps)
  with p1 show ?thesis by (rule preserved_trans)
qed

lemma deviceBody_attached:
  assumes "deviceBody c zcl n a z = Inr z'" and "advertisesBasic z n a"
  shows "HasProductInformationFlag \<in> set (Capabilities (device (deviceStore z' a)))"
proof -
  from assms(2) have "fst (findBasicEndpoint (endpointDescriptions (nodeStore z n)) (endpoints (deviceStore z a)))"
    by (simp add: findBasicEndpoint_found advertisesBasic_def)
  then obtain ep where fb: "findBasicEndpoint (endpointDescriptions (nodeStore z n)) (endpoints (deviceStore z a)) = (True, ep)"
    by (cases "findBasicEndpoint (endpointDescriptions (nodeStore z n)) (endpoints (deviceStore z a))") auto
  from assms(1) fb obtain r z1 where
    rt: "Retry (DefaultNetworkRetries c) (readAttempt c zcl n a ep) z = Inr (r, z1)"
    by (auto simp: deviceBody_def split: sum.splits)
  show ?thesis
    using assms(1) fb rt addCapability_mem
    by (cases r) (auto simp: deviceBody_def Let_def)
qed

lemma deviceBody_wellTyped:
  assumes "answersWellTyped zcl"
  shows "\<exists>z'. deviceBody c zcl n a z = Inr z'"
proof -
  obtain found ep where fb: "findBasicEndpoint (endpointDescriptions (nodeStore z n)) (endpoints (deviceStore z a)) = (found, ep)"
    by (cases "findBasicEndpoint (endpointDescriptions (nodeStore z n)) (endpoints (deviceStore z a))") auto
  obtain r z1 where
    rt: "Retry (DefaultNetworkRetries c) (readAttempt c zcl n a ep) z = Inr (r, z1)"
    using Retry_total [of "readAttempt c zcl n a ep", OF readAttempt_wellTyped [OF assms]] by blast
  show ?thesis using fb rt by (simp add: deviceBody_def Let_def)
qed

lemma deviceBody_answer_at:
  assumes "advertisesBasic z n a" and "k < DefaultNetworkRetries c"
    and "\<forall>j<k. isl (zcl (length (zclRequests z) + j))"
    and "zcl (length (zclRequests z) + k) = Inr rs"
    and "forRecords c (productInformation (deviceStore z a)) rs = Inr info"
  shows "\<exists>z'. deviceBody c zcl n a z = Inr z'
           \<and> productInformation (deviceStore z' a) = info
           \<and> HasProductInformationFlag \<in> set (Capabilities (device (deviceStore z' a)))
           \<and> printed z' = printed z"
proof -
  obtain ep where fb: "findBasicEndpoint (endpointDescriptions (nodeStore z n))
                 (endpoints (deviceStore z a)) = (True, ep)"
    using findBasicEndpoint_advertises [OF assms(1)] by blast
  obtain z1 where "Retry (DefaultNetworkRetries c) (readAttempt c zcl n a ep) z = Inr (None, z1)"
    "productInformation (deviceStore z1 a) = info" "printed z1 = printed z"
    using Retry_answer_at [OF assms(2-5), of n ep] by blast
  with fb show ?thesis
    by (simp add: deviceBody_def Let_def addCapability_mem)
qed

lemma deviceBody_all_errors:
  assumes "advertisesBasic z n a" and "0 < DefaultNetworkRetries c"
    and "\<forall>j<DefaultNetworkRetries c. isl (zcl (length (zclRequests z) + j))"
  shows "\<exists>z'. deviceBody c zcl n a z = Inr z'
           \<and> productInformation (deviceStore z' a) = productInformation (deviceStore z a)
           \<and> HasProductInformationFlag \<in> set (Capabilities (device (deviceStore z' a)))
           \<and> printed z' = printed z @ [FailedToReadProductInformation
                 (projl (zcl (length (zclRequests z) + (DefaultNetworkRetries c - 1))))]"
proof -
  obtain ep where fb: "findBasicEndpoint (endpointDescriptions (nodeStore z n))
                 (endpoints (deviceStore z a)) = (True, ep)"
    using findBasicEndpoint_advertises [OF assms(1)] by blast
  obtain z1 where "Retry (DefaultNetworkRetries c) (readAttempt c zcl n a ep) z
      = Inr (Some (projl (zcl (length (zclRequests z) + (DefaultNetworkRetries c - 1)))), z1)"
    "deviceStore z1 = deviceStore z" "printed z1 = printed z"
    using Retry_all_errors [OF assms(2,3), of c n a ep] by blast
  with fb show ?thesis
    by (simp add: deviceBody_def Let_def addCapability_mem)
qed

lemma advertisesBasic_preserved:
  "preserved z z' \<Longrightarrow> advertisesBasic z' n a = advertisesBasic z n a"
  by (simp add: advertisesBasic_def preserved_def)

lemma forDevices_preserved:
  "forDevices c zcl n as z = Inr z' \<Longrightarrow> preserved z z'"
proof (induction as arbitrary: z)
  case Nil
  then show ?case by (simp add: preserved_refl)
next
  case (Cons a as)
  from Cons.prems obtain z1 where b: "deviceBody c zcl n a z = Inr z1"
    and r: "forDevices c zcl n as z1 = Inr z'"
    by (auto split: sum.splits)
  from deviceBody_preserved [OF b] Cons.IH [OF r] show ?case by (rule preserved_trans)
qed

lemma forDevices_wellTyped:
  "answersWellTyped zcl \<Longrightarrow> \<exists>z'. forDevices c zcl n as z = Inr z'"
proof (induction as arbitrary: z)
  case Nil
  then show ?case by simp
next
  case (Cons a as)
  obtain z1 where b: "deviceBody c zcl n a z = Inr z1"
    using deviceBody_wellTyped [OF Cons.prems] by blast
  with Cons.IH [OF Cons.prems, of z1] show ?case by simp
qed

lemma forDevices_attached:
  "forDevices c zcl n as z = Inr z' \<Longrightarrow> a \<in> set as \<Longrightarrow> advertisesBasic z n a \<Longrightarrow>
     HasProductInformationFlag \<in> set (Capabilities (device (deviceStore z' a)))"
proof (induction as arbitrary: z)
  case Nil
  then show ?case by simp
next
  case (Cons b bs)
  from Cons.prems(1) obtain z1 where b: "deviceBody c zcl n b z = Inr z1"
    and r: "forDevices c zcl n bs z1 = Inr z'"
    by (auto split: sum.splits)
  have p1: "preserved z z1" by (rule deviceBody_preserved [OF b])
  have p2: "preserved z1 z'" by (rule forDevices_preserved [OF r])
  show ?case
  proof (cases "a \<in> set bs")
    case True
    moreover have "advertisesBasic z1 n a"
      using Cons.prems(3) advertisesBasic_preserved [OF p1] by simp
    ultimately show ?thesis using Cons.IH [OF r] by simp
  next
    case False
    with Cons.prems(2) have "a = b" by simp
    with b Cons.prems(3) have "HasProductInformationFlag \<in> set (Capabilities (device (deviceStore z1 a)))"
      using deviceBody_attached by blast
    with p2 show ?thesis by (auto simp: preserved_def)
  qed
qed

lemma NodeEnumerationCallback_wellTyped:
  assumes "answersWellTyped zcl"
  shows "\<exists>z'. NodeEnumerationCallback c zcl z n = Inr (None, z')
          \<and> forDevices c zcl n (node_devices (nodeStore z n)) z = Inr z'"
  using forDevices_wellTyped [OF assms, of c n "node_devices (nodeStore z n)" z]
  by (auto simp: NodeEnumerationCallback_def)

text \<open>
  Claim C2, as amended. Provided every status-0 record that the communicator returns for
  attribute 0x0004 or 0x0005 carries a string, the callback returns nil and every device of
  the node with an endpoint advertising the Basic cluster has the \<open>HasProductInformation\<close>
  capability afterwards, whatever the reads returned: all records good, one attribute with a
  non-zero status, or an error on every attempt. For one such device, when the attempt
  \<open>k\<close> (below the number of retries) is the first to return records and the two
  present-bits are disjoint: an attribute whose last record has a non-zero status has its
  field empty and its present-bit clear, an attribute whose last record has status 0 has
  that record's string in its field and its present-bit set, and the capability is attached
  in either case.
\<close>

theorem capability_attached_after_read:
  "answersWellTyped zcl \<Longrightarrow>
     (\<exists>z'. NodeEnumerationCallback c zcl z n = Inr (None, z')
        \<and> (\<forall>a \<in> set (node_devices (nodeStore z n)). advertisesBasic z n a \<longrightarrow>
              HasProductInformationFlag \<in> set (Capabilities (device (deviceStore z' a)))))
     \<and> (\<forall>a k rs. advertisesBasic z n a \<and> k < DefaultNetworkRetries c
           \<and> (\<forall>j<k. isl (zcl (length (zclRequests z) + j)))
           \<and> zcl (length (zclRequests z) + k) = Inr rs
           \<and> ManufacturerBit c AND NameBit c = 0 \<longrightarrow>
         (\<exists>z'. deviceBody c zcl n a z = Inr z'
            \<and> HasProductInformationFlag \<in> set (Capabilities (device (deviceStore z' a)))
            \<and> (recordsFor 0x0004 rs \<noteq> [] \<and> rec_Status (last (recordsFor 0x0004 rs)) \<noteq> 0 \<longrightarrow>
                 Manufacturer (productInformation (deviceStore z' a)) = []
                 \<and> Present (productInformation (deviceStore z' a)) AND ManufacturerBit c = 0)
            \<and> (recordsFor 0x0005 rs \<noteq> [] \<and> rec_Status (last (recordsFor 0x0005 rs)) \<noteq> 0 \<longrightarrow>
                 Name (productInformation (deviceStore z' a)) = []
                 \<and> Present (productInformation (deviceStore z' a)) AND NameBit c = 0)
            \<and> (recordsFor 0x0004 rs \<noteq> [] \<and> rec_Status (last (recordsFor 0x0004 rs)) = 0 \<longrightarrow>
                 rec_Value (last (recordsFor 0x0004 rs))
                   = StringValue (Manufacturer (productInformation (deviceStore z' a)))
                 \<and> Present (productInformation (deviceStore z' a)) AND ManufacturerBit c
                   = ManufacturerBit c)
            \<and> (recordsFor 0x0005 rs \<noteq> [] \<and> rec_Status (last (recordsFor 0x0005 rs)) = 0 \<longrightarrow>
                 rec_Value (last (recordsFor 0x0005 rs))
                   = StringValue (Name (productInformation (deviceStore z' a)))
                 \<and> Present (productInformation (deviceStore z' a)) AND NameBit c = NameBit c)))"
proof (intro conjI allI impI)
  assume wt: "answersWellTyped zcl"
  obtain z' where cb: "NodeEnumerationCallback c zcl z n = Inr (None, z')"
    and fd: "forDevices c zcl n (node_devices (nodeStore z n)) z = Inr z'"
    using NodeEnumerationCallback_wellTyped [OF wt] by blast
  have "\<forall>a \<in> set (node_devices (nodeStore z n)). advertisesBasic z n a \<longrightarrow>
          HasProductInformationFlag \<in> set (Capabilities (device (deviceStore z' a)))"
    using forDevices_attached [OF fd] by blast
  with cb show "\<exists>z'. NodeEnumerationCallback c zcl z n = Inr (None, z')
        \<and> (\<forall>a \<in> set (node_devices (nodeStore z n)). advertisesBasic z n a \<longrightarrow>
              HasProductInformationFlag \<in> set (Capabilities (device (deviceStore z' a))))"
    by blast
next
  fix a k rs
  assume wt: "answersWellTyped zcl"
  assume h: "advertisesBasic z n a \<and> k < DefaultNetworkRetries c
           \<and> (\<forall>j<k. isl (zcl (length (zclRequests z) + j)))
           \<and> zcl (length (zclRequests z) + k) = Inr rs
           \<and> ManufacturerBit c AND NameBit c = 0"
  then have ans: "zcl (length (zclRequests z) + k) = Inr rs"
    and dis: "ManufacturerBit c AND NameBit c = 0" by simp_all
  from wt ans have "list_all recordWellTyped rs"
    by (auto simp: answersWellTyped_def)
  then obtain info where rr: "forRecords c (productInformation (deviceStore z a)) rs = Inr info"
    using forRecords_wellTyped by blast
  obtain z' where db: "deviceBody c zcl n a z = Inr z'"
    and pi: "productInformation (deviceStore z' a) = info"
    and at: "HasProductInformationFlag \<in> set (Capabilities (device (deviceStore z' a)))"
    using deviceBody_answer_at [of z n a k c zcl rs info] h rr by blast
  show "\<exists>z'. deviceBody c zcl n a z = Inr z'
            \<and> HasProductInformationFlag \<in> set (Capabilities (device (deviceStore z' a)))
            \<and> (recordsFor 0x0004 rs \<noteq> [] \<and> rec_Status (last (recordsFor 0x0004 rs)) \<noteq> 0 \<longrightarrow>
                 Manufacturer (productInformation (deviceStore z' a)) = []
                 \<and> Present (productInformation (deviceStore z' a)) AND ManufacturerBit c = 0)
            \<and> (recordsFor 0x0005 rs \<noteq> [] \<and> rec_Status (last (recordsFor 0x0005 rs)) \<noteq> 0 \<longrightarrow>
                 Name (productInformation (deviceStore z' a)) = []
                 \<and> Present (productInformation (deviceStore z' a)) AND NameBit c = 0)
            \<and> (recordsFor 0x0004 rs \<noteq> [] \<and> rec_Status (last (recordsFor 0x0004 rs)) = 0 \<longrightarrow>
                 rec_Value (last (recordsFor 0x0004 rs))
                   = StringValue (Manufacturer (productInformation (deviceStore z' a)))
                 \<and> Present (productInformation (deviceStore z' a)) AND ManufacturerBit c
                   = ManufacturerBit c)
            \<and> (recordsFor 0x0005 rs \<noteq> [] \<and> rec_Status (last (recordsFor 0x0005 rs)) = 0 \<longrightarrow>
                 rec_Value (last (recordsFor 0x0005 rs))
                   = StringValue (Name (productInformation (deviceStore z' a)))
                 \<and> Present (productInformation (deviceStore z' a)) AND NameBit c = NameBit c)"
    using db at pi forRecords_Manufacturer [OF dis rr] forRecords_Name [OF dis rr]
    by (intro exI [of _ z']) simp
qed

text \<open>
  The claim as stated fails where a status-0 record carries a value that is not a string:
  the type assertion panics, and the capability is never attached. One device on endpoint
  0x01 with the Basic cluster; the communicator answers attribute 0x0004 with status 0 and a
  number.
\<close>

theorem mistyped_manufacturer_panics:
  "node_devices (nodeStore enumeratedGateway 0) = [0]
   \<and> advertisesBasic enumeratedGateway 0 0
   \<and> answersManufacturerNumber 0 =
       Inr [\<lparr>rec_Identifier = 0x0004, rec_Status = 0, rec_Value = OtherValue\<rparr>]
   \<and> NodeEnumerationCallback exampleConstants answersManufacturerNumber enumeratedGateway 0
       = Inl InterfaceConversion"
  by (simp add: NodeEnumerationCallback_def deviceBody_def enumeratedGateway_simps
        enumeratedGateway_advertisesBasic
        endpointInClusters_def isClusterIdInSlice_def exampleConstants_def eval_nat_numeral
        readAttempt_def nextTransactionSequence_def Let_def answersManufacturerNumber_def
        recordCase_def)

text \<open>
  The amended statement at the partial failure of the spec: "Acme" for the manufacturer,
  status 0x86 for the model name.
\<close>

theorem capability_attached_after_read_witness:
  "answersWellTyped answersPartial
   \<and> advertisesBasic enumeratedGateway 0 0
   \<and> (\<exists>z'. NodeEnumerationCallback exampleConstants answersPartial enumeratedGateway 0
               = Inr (None, z')
          \<and> HasProductInformationFlag \<in> set (Capabilities (device (deviceStore z' 0))))
   \<and> (\<exists>z'. deviceBody exampleConstants answersPartial 0 0 enumeratedGateway = Inr z'
          \<and> HasProductInformationFlag \<in> set (Capabilities (device (deviceStore z' 0)))
          \<and> Name (productInformation (deviceStore z' 0)) = []
          \<and> Present (productInformation (deviceStore z' 0)) AND NameBit exampleConstants = 0
          \<and> Manufacturer (productInformation (deviceStore z' 0)) = ''Acme''
          \<and> Present (productInformation (deviceStore z' 0)) AND ManufacturerBit exampleConstants
              = ManufacturerBit exampleConstants)"
proof -
  note t = capability_attached_after_read [OF answersPartial_wellTyped,
      of exampleConstants enumeratedGateway 0]
  from t have "\<exists>z'. NodeEnumerationCallback exampleConstants answersPartial enumeratedGateway 0
               = Inr (None, z')
        \<and> (\<forall>a \<in> set (node_devices (nodeStore enumeratedGateway 0)).
              advertisesBasic enumeratedGateway 0 a \<longrightarrow>
              HasProductInformationFlag \<in> set (Capabilities (device (deviceStore z' a))))"
    by (rule conjunct1)
  then have 1: "\<exists>z'. NodeEnumerationCallback exampleConstants answersPartial enumeratedGateway 0
               = Inr (None, z')
          \<and> HasProductInformationFlag \<in> set (Capabilities (device (deviceStore z' 0)))"
    using enumeratedGateway_advertisesBasic by (simp add: enumeratedGateway_simps)
  let ?rs = "[\<lparr>rec_Identifier = 0x0004, rec_Status = 0, rec_Value = StringValue ''Acme''\<rparr>,
          \<lparr>rec_Identifier = 0x0005, rec_Status = 0x86, rec_Value = OtherValue\<rparr>]"
  have pre: "advertisesBasic enumeratedGateway 0 0 \<and> 0 < DefaultNetworkRetries exampleConstants
           \<and> (\<forall>j<0. isl (answersPartial (length (zclRequests enumeratedGateway) + j)))
           \<and> answersPartial (length (zclRequests enumeratedGateway) + 0) = Inr ?rs
           \<and> ManufacturerBit exampleConstants AND NameBit exampleConstants = 0"
    using enumeratedGateway_advertisesBasic
    by (simp add: exampleConstants_def answersPartial_def)
  from t have "\<forall>a k rs. advertisesBasic enumeratedGateway 0 a
           \<and> k < DefaultNetworkRetries exampleConstants
           \<and> (\<forall>j<k. isl (answersPartial (length (zclRequests enumeratedGateway) + j)))
           \<and> answersPartial (length (zclRequests enumeratedGateway) + k) = Inr rs
           \<and> ManufacturerBit exampleConstants AND NameBit exampleConstants = 0 \<longrightarrow>
         (\<exists>z'. deviceBody exampleConstants answersPartial 0 a enumeratedGateway = Inr z'
            \<and> HasProductInformationFlag \<in> set (Capabilities (device (deviceStore z' a)))
            \<and> (recordsFor 0x0004 rs \<noteq> [] \<and> rec_Status (last (recordsFor 0x0004 rs)) \<noteq> 0 \<longrightarrow>
                 Manufacturer (productInformation (deviceStore z' a)) = []
                 \<and> Present (productInformation (deviceStore z' a)) AND ManufacturerBit exampleConstants = 0)
            \<and> (recordsFor 0x0005 rs \<noteq> [] \<and> rec_Status (last (recordsFor 0x0005 rs)) \<noteq> 0 \<longrightarrow>
                 Name (productInformation (deviceStore z' a)) = []
                 \<and> Present (productInformation (deviceStore z' a)) AND NameBit exampleConstants = 0)
            \<and> (recordsFor 0x0004 rs \<noteq> [] \<and> rec_Status (last (recordsFor 0x0004 rs)) = 0 \<longrightarrow>
                 rec_Value (last (recordsFor 0x0004 rs))
                   = StringValue (Manufacturer (productInformation (deviceStore z' a)))
                 \<and> Present (productInformation (deviceStore z' a)) AND ManufacturerBit exampleConstants
                   = ManufacturerBit exampleConstants)
            \<and> (recordsFor 0x0005 rs \<noteq> [] \<and> rec_Status (last (recordsFor 0x0005 rs)) = 0 \<longrightarrow>
                 rec_Value (last (recordsFor 0x0005 rs))
                   = StringValue (Name (productInformation (deviceStore z' a)))
                 \<and> Present (productInformation (deviceStore z' a)) AND NameBit exampleConstants
                   = NameBit exampleConstants))"
    by (rule conjunct2)
  from this [rule_format, OF pre]
  have 2: "\<exists>z'. deviceBody exampleConstants answersPartial 0 0 enumeratedGateway = Inr z'
          \<and> HasProductInformationFlag \<in> set (Capabilities (device (deviceStore z' 0)))
          \<and> Name (productInformation (deviceStore z' 0)) = []
          \<and> Present (productInformation (deviceStore z' 0)) AND NameBit exampleConstants = 0
          \<and> Manufacturer (productInformation (deviceStore z' 0)) = ''Acme''
          \<and> Present (productInformation (deviceStore z' 0)) AND ManufacturerBit exampleConstants
              = ManufacturerBit exampleConstants"
    by (auto simp: recordsFor_def)
  from answersPartial_wellTyped enumeratedGateway_advertisesBasic 1 2 show ?thesis
    by blast
qed

text \<open>
  Claim C9, as amended. The callback never returns an error. Provided every status-0
  record returned for attribute 0x0004 or 0x0005 carries a string, it returns nil. When
  every attempt of the read for a device ends in an error, that of the last attempt is
  logged, and the device's loop body ends normally.
\<close>

theorem callback_returns_nil:
  "(\<forall>err z'. NodeEnumerationCallback c zcl z n \<noteq> Inr (Some err, z'))
   \<and> (answersWellTyped zcl \<longrightarrow> (\<exists>z'. NodeEnumerationCallback c zcl z n = Inr (None, z')))
   \<and> (\<forall>a. advertisesBasic z n a \<and> 0 < DefaultNetworkRetries c
          \<and> (\<forall>j<DefaultNetworkRetries c. isl (zcl (length (zclRequests z) + j))) \<longrightarrow>
        (\<exists>z'. deviceBody c zcl n a z = Inr z'
           \<and> printed z' = printed z @ [FailedToReadProductInformation
                 (projl (zcl (length (zclRequests z) + (DefaultNetworkRetries c - 1))))]))"
proof (intro conjI allI impI)
  fix err z'
  show "NodeEnumerationCallback c zcl z n \<noteq> Inr (Some err, z')"
    by (auto simp: NodeEnumerationCallback_def split: sum.splits)
next
  assume "answersWellTyped zcl"
  then show "\<exists>z'. NodeEnumerationCallback c zcl z n = Inr (None, z')"
    using NodeEnumerationCallback_wellTyped by blast
next
  fix a
  assume "advertisesBasic z n a \<and> 0 < DefaultNetworkRetries c
          \<and> (\<forall>j<DefaultNetworkRetries c. isl (zcl (length (zclRequests z) + j)))"
  then show "\<exists>z'. deviceBody c zcl n a z = Inr z'
           \<and> printed z' = printed z @ [FailedToReadProductInformation
                 (projl (zcl (length (zclRequests z) + (DefaultNetworkRetries c - 1))))]"
    using deviceBody_all_errors [of z n a c zcl] by blast
qed

text \<open>
  The claim as stated, nil for every input, fails where a status-0 record carries a value
  that is not a string: the callback panics. The manufacturer is good here; the model name
  comes with status 0 and a number.
\<close>

theorem mistyped_name_panics:
  "answersNameNumber 0 =
     Inr [\<lparr>rec_Identifier = 0x0004, rec_Status = 0, rec_Value = StringValue ''Acme''\<rparr>,
          \<lparr>rec_Identifier = 0x0005, rec_Status = 0, rec_Value = OtherValue\<rparr>]
   \<and> NodeEnumerationCallback exampleConstants answersNameNumber enumeratedGateway 0
       = Inl InterfaceConversion"
  by (simp add: NodeEnumerationCallback_def deviceBody_def enumeratedGateway_simps
        endpointInClusters_def isClusterIdInSlice_def exampleConstants_def eval_nat_numeral
        readAttempt_def nextTransactionSequence_def Let_def answersNameNumber_def
        recordCase_def zeroProductInformation_def)

text \<open>
  The amended statement where no read is answered before its context expires.
\<close>

theorem callback_returns_nil_witness:
  "answersWellTyped answersExpired
   \<and> advertisesBasic enumeratedGateway 0 0
   \<and> 0 < DefaultNetworkRetries exampleConstants
   \<and> NodeEnumerationCallback exampleConstants answersExpired enumeratedGateway 0
       = Inr (None, snd (projr (NodeEnumerationCallback exampleConstants answersExpired
                                  enumeratedGateway 0)))
   \<and> printed (projr (deviceBody exampleConstants answersExpired 0 0 enumeratedGateway))
       = [FailedToReadProductInformation ContextExpired]"
proof -
  note t = callback_returns_nil [of exampleConstants answersExpired enumeratedGateway 0]
  from t have "answersWellTyped answersExpired \<longrightarrow>
      (\<exists>z'. NodeEnumerationCallback exampleConstants answersExpired enumeratedGateway 0
               = Inr (None, z'))"
    by blast
  with answersExpired_wellTyped
  have 1: "NodeEnumerationCallback exampleConstants answersExpired enumeratedGateway 0
       = Inr (None, snd (projr (NodeEnumerationCallback exampleConstants answersExpired
                                  enumeratedGateway 0)))"
    by auto
  have r: "0 < DefaultNetworkRetries exampleConstants"
    by (simp add: exampleConstants_def)
  have pre: "advertisesBasic enumeratedGateway 0 0 \<and> 0 < DefaultNetworkRetries exampleConstants
      \<and> (\<forall>j<DefaultNetworkRetries exampleConstants.
            isl (answersExpired (length (zclRequests enumeratedGateway) + j)))"
    using enumeratedGateway_advertisesBasic r by (simp add: answersExpired_def)
  from t have "\<forall>a. advertisesBasic enumeratedGateway 0 a \<and> 0 < DefaultNetworkRetries exampleConstants
          \<and> (\<forall>j<DefaultNetworkRetries exampleConstants.
                isl (answersExpired (length (zclRequests enumeratedGateway) + j))) \<longrightarrow>
        (\<exists>z'. deviceBody exampleConstants answersExpired 0 a enumeratedGateway = Inr z'
           \<and> printed z' = printed enumeratedGateway @ [FailedToReadProductInformation
                 (projl (answersExpired (length (zclRequests enumeratedGateway)
                    + (DefaultNetworkRetries exampleConstants - 1))))])"
    by blast
  from this [rule_format, OF pre]
  have 2: "printed (projr (deviceBody exampleConstants answersExpired 0 0 enumeratedGateway))
       = [FailedToReadProductInformation ContextExpired]"
    by (auto simp: enumeratedGateway_simps answersExpired_def)
  from answersExpired_wellTyped enumeratedGateway_advertisesBasic r 1 2 show ?thesis
    by blast
qed

section \<open>Properties of the event egress queue\<close>

text \<open>
  Claim C7. The event channel holds at most 100 events: it is empty in a new gateway, and
  neither \<open>sendEvent\<close> nor \<open>ReadEvent\<close> takes it over 100. \<open>sendEvent\<close> on a channel
  that is not full appends the event behind the ones waiting, and \<open>ReadEvent\<close> takes the
  oldest first. On a full channel \<open>sendEvent\<close> returns all the same: the event is dropped, the
  warning is printed, nothing else changes, and the function has no error to return.
\<close>

theorem sendEvent_bounded_fifo:
  "length (events z) \<le> eventsCapacity \<Longrightarrow>
     eventsCapacity = 100
     \<and> events New = []
     \<and> length (events (sendEvent z e)) \<le> eventsCapacity
     \<and> length (events (snd (ReadEvent z))) \<le> eventsCapacity
     \<and> (length (events z) < eventsCapacity \<longrightarrow>
          sendEvent z e = z\<lparr>events := events z @ [e]\<rparr>)
     \<and> (length (events z) = eventsCapacity \<longrightarrow>
          sendEvent z e = z\<lparr>printed := printed z @ [CouldNotSendEvent e]\<rparr>)
     \<and> (\<forall>x xs. events z = x # xs \<longrightarrow> fst (ReadEvent (sendEvent z e)) = Inr x)
     \<and> (events z = [] \<longrightarrow> fst (ReadEvent (sendEvent z e)) = Inr e)"
  by (auto simp: sendEvent_def ReadEvent_def eventsCapacity_def New_def split: list.splits)

theorem sendEvent_bounded_fifo_witness:
  "length (events New) \<le> eventsCapacity
   \<and> sendEvent New (OtherEvent 1) = New\<lparr>events := [OtherEvent 1]\<rparr>
   \<and> fst (ReadEvent (sendEvent New (OtherEvent 1))) = Inr (OtherEvent 1)
   \<and> length (events fullGateway) = eventsCapacity
   \<and> sendEvent fullGateway (OtherEvent 1)
       = fullGateway\<lparr>printed := [CouldNotSendEvent (OtherEvent 1)]\<rparr>
   \<and> events (sendEvent fullGateway (OtherEvent 1)) = events fullGateway
   \<and> fst (ReadEvent (sendEvent fullGateway (OtherEvent 1))) = Inr (OtherEvent 0)"
proof -
  have n: "length (events New) \<le> eventsCapacity" "events New = []" "printed New = []"
    by (simp_all add: New_def)
  have f: "length (events fullGateway) = eventsCapacity" "printed fullGateway = []"
    by (simp_all add: fullGateway_def eventsCapacity_def New_def)
  have "replicate (Suc 99) (OtherEvent 0) = OtherEvent 0 # replicate 99 (OtherEvent 0)"
    by (simp only: replicate.simps)
  then have h: "events fullGateway = OtherEvent 0 # replicate 99 (OtherEvent 0)"
    by (simp add: fullGateway_def)
  from f have f': "length (events fullGateway) \<le> eventsCapacity" by simp
  note a = sendEvent_bounded_fifo [OF n(1), of "OtherEvent 1"]
  note b = sendEvent_bounded_fifo [OF f', of "OtherEvent 1"]
  have 1: "sendEvent New (OtherEvent 1) = New\<lparr>events := [OtherEvent 1]\<rparr>"
    using a n by (simp add: eventsCapacity_def)
  have 2: "fst (ReadEvent (sendEvent New (OtherEvent 1))) = Inr (OtherEvent 1)"
    using a n by blast
  have 3: "sendEvent fullGateway (OtherEvent 1)
       = fullGateway\<lparr>printed := [CouldNotSendEvent (OtherEvent 1)]\<rparr>"
    using b f by simp
  have 4: "fst (ReadEvent (sendEvent fullGateway (OtherEvent 1))) = Inr (OtherEvent 0)"
    using b h by blast
  from 3 have 5: "events (sendEvent fullGateway (OtherEvent 1)) = events fullGateway"
    by simp
  from n(1) 1 2 f(1) 3 5 4 show ?thesis by blast
qed

section \<open>Properties of the provider handler\<close>

text \<open>
  What the loop over the devices of a leaving node does to the state: one call of
  \<open>removeDevice\<close> per device, each taking one identifier out of the device map.
\<close>

lemma removeDevice_frame:
  "deviceStore (removeDevice z i) = deviceStore z"
  "nodes (removeDevice z i) = nodes z"
  "self (removeDevice z i) = self z"
  "events (removeDevice z i) = events z"
  "capabilities (removeDevice z i) = capabilities z"
  "printed (removeDevice z i) = printed z"
  "trace (removeDevice z i) = trace z @ [RemoveDevice i]"
  "devices (removeDevice z i) = (devices z)(i := None)"
  by (auto simp: removeDevice_def Let_def split: option.splits)

lemma removeDevices_frame:
  "deviceStore (removeDevices z as) = deviceStore z
   \<and> nodes (removeDevices z as) = nodes z
   \<and> self (removeDevices z as) = self z
   \<and> events (removeDevices z as) = events z
   \<and> capabilities (removeDevices z as) = capabilities z
   \<and> printed (removeDevices z as) = printed z"
  by (induction as arbitrary: z) (simp_all add: removeDevice_frame)

lemma removeDevices_trace:
  "trace (removeDevices z as) =
     trace z @ map (\<lambda>a. RemoveDevice (Identifier (device (deviceStore z a)))) as"
  by (induction as arbitrary: z) (simp_all add: removeDevice_frame)

lemma removeDevices_devices:
  "devices (removeDevices z as) i =
     (if i \<in> (\<lambda>a. Identifier (device (deviceStore z a))) ` set as then None else devices z i)"
  by (induction as arbitrary: z) (auto simp: removeDevice_frame)

text \<open>
  Claim C4. A \<open>NodeLeaveEvent\<close> for a known node makes the handler call, in this order:
  the callback bus with the internal leave event of the node, \<open>removeDevice\<close> for every
  device of the node's list, in the order of the list, and \<open>removeNode\<close>. Afterwards
  neither the node nor the identifier of any of its devices resolves, and the other nodes
  and devices resolve as before. For an unknown address the state is unchanged: nothing is
  published and nothing is removed.
\<close>

theorem NodeLeaveEvent_order:
  "(nodes z ieee = Some n \<longrightarrow>
      trace (handleEvent z (Some (NodeLeaveEvent ieee))) =
        trace z @ [CallbacksCall (internalNodeLeave n)]
          @ map (\<lambda>a. RemoveDevice (Identifier (device (deviceStore z a))))
              (node_devices (nodeStore z n))
          @ [RemoveNode ieee]
      \<and> getNode (handleEvent z (Some (NodeLeaveEvent ieee))) ieee = None
      \<and> (\<forall>a \<in> set (node_devices (nodeStore z n)).
            getDevice (handleEvent z (Some (NodeLeaveEvent ieee)))
              (Identifier (device (deviceStore z a))) = None)
      \<and> (\<forall>other. other \<noteq> ieee \<longrightarrow>
            getNode (handleEvent z (Some (NodeLeaveEvent ieee))) other = getNode z other)
      \<and> (\<forall>i. i \<notin> (\<lambda>a. Identifier (device (deviceStore z a))) ` set (node_devices (nodeStore z n))
            \<longrightarrow> getDevice (handleEvent z (Some (NodeLeaveEvent ieee))) i = getDevice z i))
   \<and> (nodes z ieee = None \<longrightarrow> handleEvent z (Some (NodeLeaveEvent ieee)) = z)"
  by (auto simp: handleEvent_def getNode_def getDevice_def getDevices_def removeNode_def
        callbacksCall_def Let_def removeDevices_frame removeDevices_trace removeDevices_devices)

theorem NodeLeaveEvent_order_witness:
  "nodes joinedGateway 0xAABB = Some 0
   \<and> trace (handleEvent joinedGateway (Some (NodeLeaveEvent 0xAABB))) =
        trace joinedGateway @
        [CallbacksCall (internalNodeLeave 0),
         RemoveDevice (IEEEAddressWithSubIdentifier 0xAABB 0),
         RemoveNode 0xAABB]
   \<and> getNode (handleEvent joinedGateway (Some (NodeLeaveEvent 0xAABB))) 0xAABB = None
   \<and> getDevice (handleEvent joinedGateway (Some (NodeLeaveEvent 0xAABB)))
        (IEEEAddressWithSubIdentifier 0xAABB 0) = None
   \<and> nodes New 0xAABB = None
   \<and> handleEvent New (Some (NodeLeaveEvent 0xAABB)) = New"
proof -
  have a: "nodes joinedGateway 0xAABB = Some 0"
    by (simp add: joinedGateway_simps)
  have b: "nodes New 0xAABB = None"
    by (simp add: New_def)
  from a b NodeLeaveEvent_order [of joinedGateway "0xAABB" 0]
    NodeLeaveEvent_order [of New "0xAABB" 0]
  show ?thesis by (simp add: joinedGateway_simps)
qed

text \<open>
  The three cases of a join: the node has a device, the node has none, there is no node.
  After any of them the node exists and has a device.
\<close>

lemma handleEvent_join_known:
  "nodes z ieee = Some n \<Longrightarrow> node_devices (nodeStore z n) \<noteq> [] \<Longrightarrow>
     handleEvent z (Some (NodeJoinEvent ieee)) = z"
  by (simp add: handleEvent_def getNode_def getDevices_def)

lemma handleEvent_join_empty:
  "nodes z ieee = Some n \<Longrightarrow> node_devices (nodeStore z n) = [] \<Longrightarrow>
     handleEvent z (Some (NodeJoinEvent ieee)) =
       callbacksCall (snd (addDevice (snd (nextDeviceIdentifier z n))
                         (fst (nextDeviceIdentifier z n)) n)) (internalNodeJoin n)"
  by (simp add: handleEvent_def getNode_def getDevices_def split: prod.splits)

lemma handleEvent_join_new:
  "nodes z ieee = None \<Longrightarrow>
     handleEvent z (Some (NodeJoinEvent ieee)) =
       (let n = nextNode z; z1 = snd (addNode z ieee)
        in callbacksCall (snd (addDevice (snd (nextDeviceIdentifier z1 n))
                         (fst (nextDeviceIdentifier z1 n)) n)) (internalNodeJoin n))"
  by (simp add: handleEvent_def getNode_def getDevices_def addNode_def Let_def
        zeroInternalNode_def split: prod.splits)

lemma handleEvent_join_after:
  "\<exists>n. nodes (handleEvent z (Some (NodeJoinEvent ieee))) ieee = Some n
     \<and> node_devices (nodeStore (handleEvent z (Some (NodeJoinEvent ieee))) n) \<noteq> []"
proof (cases "nodes z ieee")
  case None
  then show ?thesis
    by (simp add: handleEvent_join_new addNode_def nextDeviceIdentifier_def addDevice_def
          callbacksCall_def Let_def)
next
  case (Some n)
  show ?thesis
  proof (cases "node_devices (nodeStore z n) = []")
    case True
    with Some show ?thesis
      by (simp add: handleEvent_join_empty nextDeviceIdentifier_def addDevice_def
            callbacksCall_def Let_def)
  next
    case False
    with Some show ?thesis by (simp add: handleEvent_join_known)
  qed
qed

text \<open>
  Claim C3. A \<open>NodeJoinEvent\<close> for a node that exists and has a device changes nothing: no
  device is added and no internal join event is published. Handling the same event a second
  time therefore never changes what the first time left. The initial device is allocated
  and the join published only when the node's device list is empty: for an existing node
  without devices, and for an unknown address after the node was added.
\<close>

theorem NodeJoinEvent_idempotent:
  "(nodes z ieee = Some n \<and> node_devices (nodeStore z n) \<noteq> [] \<longrightarrow>
      handleEvent z (Some (NodeJoinEvent ieee)) = z)
   \<and> handleEvent (handleEvent z (Some (NodeJoinEvent ieee))) (Some (NodeJoinEvent ieee))
       = handleEvent z (Some (NodeJoinEvent ieee))
   \<and> (nodes z ieee = Some n \<and> node_devices (nodeStore z n) = [] \<longrightarrow>
      trace (handleEvent z (Some (NodeJoinEvent ieee))) =
        trace z @ [AddDevice (IEEEAddressWithSubIdentifier (ieeeAddress (nodeStore z n))
                               (deviceSequence (nodeStore z n))),
                   CallbacksCall (internalNodeJoin n)]
      \<and> node_devices (nodeStore (handleEvent z (Some (NodeJoinEvent ieee))) n) = [nextDevice z])
   \<and> (nodes z ieee = None \<longrightarrow>
      trace (handleEvent z (Some (NodeJoinEvent ieee))) =
        trace z @ [AddNode ieee, AddDevice (IEEEAddressWithSubIdentifier ieee 0),
                   CallbacksCall (internalNodeJoin (nextNode z))]
      \<and> nodes (handleEvent z (Some (NodeJoinEvent ieee))) ieee = Some (nextNode z)
      \<and> node_devices (nodeStore (handleEvent z (Some (NodeJoinEvent ieee))) (nextNode z))
          = [nextDevice z])"
proof (intro conjI impI)
  show "handleEvent (handleEvent z (Some (NodeJoinEvent ieee))) (Some (NodeJoinEvent ieee))
       = handleEvent z (Some (NodeJoinEvent ieee))"
    using handleEvent_join_after [of z ieee] handleEvent_join_known by blast
qed (simp_all add: handleEvent_join_known handleEvent_join_empty handleEvent_join_new
       addNode_def nextDeviceIdentifier_def addDevice_def callbacksCall_def Let_def
       zeroInternalNode_def)

theorem NodeJoinEvent_idempotent_witness:
  "nodes joinedGateway 0xAABB = Some 0
   \<and> node_devices (nodeStore joinedGateway 0) \<noteq> []
   \<and> handleEvent joinedGateway (Some (NodeJoinEvent 0xAABB)) = joinedGateway
   \<and> nodes New 0xAABB = None
   \<and> trace (handleEvent New (Some (NodeJoinEvent 0xAABB))) =
        [AddNode 0xAABB, AddDevice (IEEEAddressWithSubIdentifier 0xAABB 0),
         CallbacksCall (internalNodeJoin 0)]
   \<and> node_devices (nodeStore (handleEvent New (Some (NodeJoinEvent 0xAABB))) 0) = [0]"
proof -
  have a: "nodes joinedGateway 0xAABB = Some 0 \<and> node_devices (nodeStore joinedGateway 0) \<noteq> []"
    by (simp add: joinedGateway_simps)
  have b: "nodes New 0xAABB = None" "trace New = []" "nextNode New = 0" "nextDevice New = 0"
    by (simp_all add: New_def)
  from a b NodeJoinEvent_idempotent [of joinedGateway "0xAABB" 0]
    NodeJoinEvent_idempotent [of New "0xAABB" 0]
  show ?thesis by simp
qed

lemma handleEvent_self: "self (handleEvent z event) = self z"
proof (cases event)
  case None
  then show ?thesis by (simp add: handleEvent_def)
next
  case (Some e)
  show ?thesis
  proof (cases e)
    case (NodeJoinEvent ieee)
    with Some show ?thesis
      by (auto simp: handleEvent_def getNode_def getDevices_def addNode_def
            nextDeviceIdentifier_def addDevice_def callbacksCall_def Let_def
            split: option.splits)
  next
    case (NodeLeaveEvent ieee)
    with Some show ?thesis
      by (auto simp: handleEvent_def getNode_def removeNode_def callbacksCall_def Let_def
            removeDevices_frame split: option.splits)
  qed (simp_all add: Some handleEvent_def)
qed

lemma providerHandler_self: "self (providerHandler z reads) = self z"
  by (induction z reads rule: providerHandler.induct)
     (simp_all add: handleEvent_self Let_def)

section \<open>Properties of the capability registry\<close>

lemma handleEvent_capabilities: "capabilities (handleEvent z event) = capabilities z"
proof (cases event)
  case None
  then show ?thesis by (simp add: handleEvent_def)
next
  case (Some e)
  show ?thesis
  proof (cases e)
    case (NodeJoinEvent ieee)
    with Some show ?thesis
      by (auto simp: handleEvent_def getNode_def getDevices_def addNode_def
            nextDeviceIdentifier_def addDevice_def callbacksCall_def Let_def
            split: option.splits)
  next
    case (NodeLeaveEvent ieee)
    with Some show ?thesis
      by (auto simp: handleEvent_def getNode_def removeNode_def callbacksCall_def Let_def
            removeDevices_frame split: option.splits)
  qed (simp_all add: Some handleEvent_def)
qed

lemma providerHandler_capabilities:
  "capabilities (providerHandler z reads) = capabilities z"
  by (induction z reads rule: providerHandler.induct)
     (simp_all add: handleEvent_capabilities Let_def)

text \<open>
  Claim C8. \<open>Capability\<close> returns nil exactly for the flags that the constructor did not
  register, that is for every flag other than the five of \<open>New\<close>; the result is the
  implementation or nil, never an error. Starting the gateway and running the provider
  handler leave the registry as it is.
\<close>

theorem Capability_unregistered_nil:
  "(Capability New flag = None) =
     (flag \<notin> {DeviceDiscoveryFlag, EnumerateDeviceFlag, LocalDebugFlag,
               HasProductInformationFlag, OnOffFlag})
   \<and> Capability (snd (Start provider z)) flag = Capability z flag
   \<and> Capability (providerHandler z reads) flag = Capability z flag"
  by (simp add: Capability_def New_def Start_def Let_def providerHandler_capabilities
        split: option.splits)

section \<open>Properties of the gateway's own device\<close>

text \<open>
  Claim C10. Before \<open>Start\<close> the gateway's own device is the zero value: no gateway, no
  identifier, no capabilities. After \<open>Start\<close>, whether or not the registration of the
  adapter endpoint failed, its identifier is the adapter's IEEE address and its capabilities
  are the list of \<open>DeviceDiscoveryFlag\<close> alone. Nothing else writes it: sending and reading
  events, the provider handler and the enumeration callback leave it as it is.
\<close>

theorem Self_populated_by_Start:
  "Self New = \<lparr>Gateway = None, Identifier = NoIdentifier, Capabilities = []\<rparr>
   \<and> Self (snd (Start provider z)) =
        \<lparr>Gateway = Some ThisGateway, Identifier = IEEEAddressId (AdapterNode provider),
         Capabilities = [DeviceDiscoveryFlag]\<rparr>
   \<and> Self (sendEvent z e) = Self z
   \<and> Self (snd (ReadEvent z)) = Self z
   \<and> Self (providerHandler z reads) = Self z
   \<and> (\<forall>r z'. NodeEnumerationCallback c zcl z n = Inr (r, z') \<longrightarrow> Self z' = Self z)"
proof (intro conjI allI impI)
  show "Self New = \<lparr>Gateway = None, Identifier = NoIdentifier, Capabilities = []\<rparr>"
    by (simp add: Self_def New_def zeroInternalDevice_def zeroDevice_def)
  show "Self (snd (Start provider z)) =
        \<lparr>Gateway = Some ThisGateway, Identifier = IEEEAddressId (AdapterNode provider),
         Capabilities = [DeviceDiscoveryFlag]\<rparr>"
    by (simp add: Self_def Start_def Let_def split: option.splits)
  show "Self (sendEvent z e) = Self z"
    by (simp add: Self_def sendEvent_def)
  show "Self (snd (ReadEvent z)) = Self z"
    by (simp add: Self_def ReadEvent_def split: list.splits)
  show "Self (providerHandler z reads) = Self z"
    by (simp add: Self_def providerHandler_self)
next
  fix r z'
  assume "NodeEnumerationCallback c zcl z n = Inr (r, z')"
  then have "forDevices c zcl n (node_devices (nodeStore z n)) z = Inr z'"
    by (auto simp: NodeEnumerationCallback_def split: sum.splits)
  then have "preserved z z'" by (rule forDevices_preserved)
  then show "Self z' = Self z" by (simp add: Self_def preserved_def)
qed

theorem Self_populated_by_Start_witness:
  "NodeEnumerationCallback exampleConstants answersComplete enumeratedGateway 0
     = Inr (None, snd (projr (NodeEnumerationCallback exampleConstants answersComplete
                                 enumeratedGateway 0)))
   \<and> Self (snd (projr (NodeEnumerationCallback exampleConstants answersComplete
                         enumeratedGateway 0)))
       = \<lparr>Gateway = None, Identifier = NoIdentifier, Capabilities = []\<rparr>
   \<and> Self (snd (Start failingProvider New)) =
        \<lparr>Gateway = Some ThisGateway, Identifier = IEEEAddressId 0x1122,
         Capabilities = [DeviceDiscoveryFlag]\<rparr>"
proof -
  obtain z' where cb: "NodeEnumerationCallback exampleConstants answersComplete
      enumeratedGateway 0 = Inr (None, z')"
    using NodeEnumerationCallback_wellTyped [OF answersComplete_wellTyped] by blast
  note t = Self_populated_by_Start [where provider = failingProvider and z = New]
  have "Self z' = Self enumeratedGateway"
    using Self_populated_by_Start [where z = enumeratedGateway and c = exampleConstants
      and zcl = answersComplete and n = 0] cb by blast
  moreover have "Self enumeratedGateway
      = \<lparr>Gateway = None, Identifier = NoIdentifier, Capabilities = []\<rparr>"
    by (simp add: Self_def enumeratedGateway_simps zeroInternalDevice_def zeroDevice_def)
  moreover have "Self (snd (Start failingProvider New)) =
        \<lparr>Gateway = Some ThisGateway, Identifier = IEEEAddressId 0x1122,
         Capabilities = [DeviceDiscoveryFlag]\<rparr>"
    using t by (simp add: failingProvider_def)
  ultimately show ?thesis using cb by simp
qed

section \<open>Properties of the device list\<close>

lemma mset_Devices:
  assumes "distinct visit" and "set visit = dom (nodes z)"
  shows "mset (Devices visit z) =
     add_mset (Self z)
       (\<Sum>ieee \<in> dom (nodes z). mset (devicesOfNode z (the (nodes z ieee))))"
proof -
  have "mset (concat (map (\<lambda>ieee. case nodes z ieee of None \<Rightarrow> []
                          | Some n \<Rightarrow> devicesOfNode z n) visit))
        = (\<Sum>ieee\<leftarrow>visit. mset (case nodes z ieee of None \<Rightarrow> []
                          | Some n \<Rightarrow> devicesOfNode z n))"
    by (simp add: mset_concat comp_def)
  also have "\<dots> = (\<Sum>ieee\<leftarrow>visit. mset (devicesOfNode z (the (nodes z ieee))))"
    using assms(2) by (intro arg_cong [where f = sum_list] map_cong) auto
  also have "\<dots> = (\<Sum>ieee \<in> set visit. mset (devicesOfNode z (the (nodes z ieee))))"
    using assms(1) by (simp add: sum_list_distinct_conv_sum_set)
  finally show ?thesis
    using assms(2) by (simp add: Devices_def Self_def)
qed

subsection \<open>Slices\<close>

text \<open>What the three ways of writing a \<open>Capabilities\<close> field keep and change.\<close>

lemma headers_setHeader: "headers (setHeader x (s, m)) = (headers m)(x := s)"
  and arrays_setHeader: "arrays (setHeader x (s, m)) = arrays m"
  and nextArray_setHeader: "nextArray (setHeader x (s, m)) = nextArray m"
  by (simp_all add: setHeader_def)

lemma readSlice_short: "slice_len s = 0 \<Longrightarrow> readSlice m s = []"
  by (simp add: readSlice_def)

lemma wellFormed_len0: "wellFormed m \<Longrightarrow> slice_cap (headers m x) = 0 \<Longrightarrow> slice_len (headers m x) = 0"
  unfolding wellFormed_def by (metis le_zero_eq)

lemma wellFormedI:
  assumes "\<And>x. slice_len (headers m x) \<le> slice_cap (headers m x)"
    and "\<And>x. 0 < slice_cap (headers m x) \<Longrightarrow> slice_ptr (headers m x) < nextArray m"
    and "\<And>x. 0 < slice_cap (headers m x) \<Longrightarrow>
           slice_cap (headers m x) = length (arrays m (slice_ptr (headers m x)))"
    and "\<And>x y. 0 < slice_cap (headers m x) \<Longrightarrow> 0 < slice_cap (headers m y) \<Longrightarrow>
           slice_ptr (headers m x) = slice_ptr (headers m y) \<Longrightarrow> x = y"
  shows "wellFormed m"
  unfolding wellFormed_def using assms by blast

lemma wellFormed_len: "wellFormed m \<Longrightarrow> slice_len (headers m x) \<le> slice_cap (headers m x)"
  by (simp add: wellFormed_def)

lemma wellFormed_ptr:
  "wellFormed m \<Longrightarrow> 0 < slice_cap (headers m x) \<Longrightarrow> slice_ptr (headers m x) < nextArray m"
  by (simp add: wellFormed_def)

lemma wellFormed_cap:
  "wellFormed m \<Longrightarrow> 0 < slice_cap (headers m x) \<Longrightarrow>
     slice_cap (headers m x) = length (arrays m (slice_ptr (headers m x)))"
  by (simp add: wellFormed_def)

lemma wellFormed_unshared:
  "wellFormed m \<Longrightarrow> 0 < slice_cap (headers m x) \<Longrightarrow> 0 < slice_cap (headers m y) \<Longrightarrow>
     slice_ptr (headers m x) = slice_ptr (headers m y) \<Longrightarrow> x = y"
  unfolding wellFormed_def by blast

text \<open>Assigning the \<open>nil\<close> slice to a field.\<close>

lemma wellFormed_nil:
  assumes "wellFormed m"
  shows "wellFormed (setHeader x (nilSlice, m))"
proof (rule wellFormedI)
  fix y
  show "slice_len (headers (setHeader x (nilSlice, m)) y)
          \<le> slice_cap (headers (setHeader x (nilSlice, m)) y)"
    using wellFormed_len [OF assms, of y] by (simp add: headers_setHeader nilSlice_def)
  show "0 < slice_cap (headers (setHeader x (nilSlice, m)) y) \<Longrightarrow>
          slice_ptr (headers (setHeader x (nilSlice, m)) y) < nextArray (setHeader x (nilSlice, m))"
    using wellFormed_ptr [OF assms, of y]
    by (simp add: headers_setHeader nextArray_setHeader nilSlice_def split: if_splits)
  show "0 < slice_cap (headers (setHeader x (nilSlice, m)) y) \<Longrightarrow>
          slice_cap (headers (setHeader x (nilSlice, m)) y)
            = length (arrays (setHeader x (nilSlice, m))
                (slice_ptr (headers (setHeader x (nilSlice, m)) y)))"
    using wellFormed_cap [OF assms, of y]
    by (simp add: headers_setHeader arrays_setHeader nilSlice_def split: if_splits)
next
  fix y y'
  show "0 < slice_cap (headers (setHeader x (nilSlice, m)) y) \<Longrightarrow>
        0 < slice_cap (headers (setHeader x (nilSlice, m)) y') \<Longrightarrow>
        slice_ptr (headers (setHeader x (nilSlice, m)) y)
          = slice_ptr (headers (setHeader x (nilSlice, m)) y') \<Longrightarrow> y = y'"
    using wellFormed_unshared [OF assms, of y y']
    by (simp add: headers_setHeader nilSlice_def split: if_splits)
qed

lemma read_nil:
  "readSlice (setHeader x (nilSlice, m)) (headers (setHeader x (nilSlice, m)) y) =
     (if y = x then [] else readSlice m (headers m y))"
  by (simp add: readSlice_def headers_setHeader arrays_setHeader nilSlice_def)

lemma intact_nil:
  assumes "intact m0 m"
  shows "intact m0 (setHeader x (nilSlice, m))"
  using assms unfolding intact_def
  by (auto simp: readSlice_def headers_setHeader arrays_setHeader nextArray_setHeader nilSlice_def)

text \<open>Assigning a slice literal to a field.\<close>

lemma wellFormed_literal:
  assumes "wellFormed m"
  shows "wellFormed (setHeader x (sliceLiteral xs m))"
proof (rule wellFormedI)
  let ?m' = "setHeader x (sliceLiteral xs m)"
  have h: "headers ?m' = (headers m)
      (x := \<lparr>slice_ptr = nextArray m, slice_len = length xs, slice_cap = length xs\<rparr>)"
    and a: "arrays ?m' = (arrays m)(nextArray m := xs)"
    and n: "nextArray ?m' = Suc (nextArray m)"
    by (simp_all add: sliceLiteral_def setHeader_def)
  fix y
  show "slice_len (headers ?m' y) \<le> slice_cap (headers ?m' y)"
    using wellFormed_len [OF assms, of y] by (simp add: h)
  show "0 < slice_cap (headers ?m' y) \<Longrightarrow> slice_ptr (headers ?m' y) < nextArray ?m'"
    using wellFormed_ptr [OF assms, of y] by (simp add: h n split: if_splits)
  show "0 < slice_cap (headers ?m' y) \<Longrightarrow>
          slice_cap (headers ?m' y) = length (arrays ?m' (slice_ptr (headers ?m' y)))"
    using wellFormed_cap [OF assms, of y] wellFormed_ptr [OF assms, of y]
    by (auto simp: h a split: if_splits)
  fix y'
  show "0 < slice_cap (headers ?m' y) \<Longrightarrow> 0 < slice_cap (headers ?m' y') \<Longrightarrow>
        slice_ptr (headers ?m' y) = slice_ptr (headers ?m' y') \<Longrightarrow> y = y'"
    using wellFormed_unshared [OF assms, of y y'] wellFormed_ptr [OF assms, of y]
      wellFormed_ptr [OF assms, of y']
    by (auto simp: h split: if_splits)
qed

lemma read_literal:
  assumes "wellFormed m"
  shows "readSlice (setHeader x (sliceLiteral xs m)) (headers (setHeader x (sliceLiteral xs m)) y) =
     (if y = x then xs else readSlice m (headers m y))"
proof (cases "y = x")
  case True
  then show ?thesis
    by (simp add: readSlice_def sliceLiteral_def headers_setHeader arrays_setHeader)
next
  case False
  show ?thesis
  proof (cases "slice_cap (headers m y) = 0")
    case True
    with assms have "slice_len (headers m y) = 0" by (rule wellFormed_len0)
    with False show ?thesis
      by (simp add: readSlice_def sliceLiteral_def headers_setHeader arrays_setHeader)
  next
    case c: False
    with assms have "slice_ptr (headers m y) < nextArray m"
      unfolding wellFormed_def by auto
    with False show ?thesis
      by (simp add: readSlice_def sliceLiteral_def headers_setHeader arrays_setHeader)
  qed
qed

lemma intact_literal:
  assumes "intact m0 m"
  shows "intact m0 (setHeader x (sliceLiteral xs m))"
  unfolding intact_def
proof (intro allI conjI impI)
  fix h
  let ?m' = "setHeader x (sliceLiteral xs m)"
  show "readSlice ?m' (headers m0 h) = readSlice m0 (headers m0 h)"
  proof (cases "slice_len (headers m0 h) = 0")
    case True
    then show ?thesis by (simp add: readSlice_def)
  next
    case False
    with assms have "slice_ptr (headers m0 h) < nextArray m"
      and "readSlice m (headers m0 h) = readSlice m0 (headers m0 h)"
      unfolding intact_def by auto
    then show ?thesis
      by (simp add: readSlice_def sliceLiteral_def arrays_setHeader)
  qed
next
  fix h
  assume l: "0 < slice_len (headers m0 h)"
  with assms have b: "slice_ptr (headers m0 h) < nextArray m"
    unfolding intact_def by auto
  then show "slice_ptr (headers m0 h) < nextArray (setHeader x (sliceLiteral xs m))"
    by (simp add: sliceLiteral_def nextArray_setHeader)
  fix y
  assume y: "0 < slice_cap (headers (setHeader x (sliceLiteral xs m)) y)
      \<and> slice_ptr (headers (setHeader x (sliceLiteral xs m)) y) = slice_ptr (headers m0 h)"
  show "slice_len (headers m0 h) \<le> slice_len (headers (setHeader x (sliceLiteral xs m)) y)"
  proof (cases "y = x")
    case True
    with y b show ?thesis
      by (simp add: sliceLiteral_def headers_setHeader)
  next
    case False
    with y have "0 < slice_cap (headers m y) \<and> slice_ptr (headers m y) = slice_ptr (headers m0 h)"
      by (simp add: sliceLiteral_def headers_setHeader)
    with assms l False show ?thesis
      unfolding intact_def by (simp add: sliceLiteral_def headers_setHeader)
  qed
qed

text \<open>Appending to the slice of a field, in place or on a new array.\<close>

lemma append_in_place:
  assumes "slice_len (headers m x) < slice_cap (headers m x)"
  shows "headers (setHeader x (appendSlice rt (headers m x) c m)) =
           (headers m)(x := (headers m x)\<lparr>slice_len := Suc (slice_len (headers m x))\<rparr>)"
    and "arrays (setHeader x (appendSlice rt (headers m x) c m)) =
           (arrays m)(slice_ptr (headers m x) :=
              (arrays m (slice_ptr (headers m x)))[slice_len (headers m x) := c])"
    and "nextArray (setHeader x (appendSlice rt (headers m x) c m)) = nextArray m"
  using assms by (simp_all add: appendSlice_def setHeader_def)

lemma append_grown:
  assumes "\<not> slice_len (headers m x) < slice_cap (headers m x)"
  shows "headers (setHeader x (appendSlice rt (headers m x) c m)) =
           (headers m)(x := \<lparr>slice_ptr = nextArray m, slice_len = Suc (slice_len (headers m x)),
              slice_cap = max (Suc (slice_len (headers m x)))
                            (growCapacity rt (Suc (slice_len (headers m x))))\<rparr>)"
    and "arrays (setHeader x (appendSlice rt (headers m x) c m)) =
           (arrays m)(nextArray m := readSlice m (headers m x) @ [c]
              @ replicate (max (Suc (slice_len (headers m x)))
                             (growCapacity rt (Suc (slice_len (headers m x))))
                           - Suc (slice_len (headers m x))) (zeroCapability rt))"
    and "nextArray (setHeader x (appendSlice rt (headers m x) c m)) = Suc (nextArray m)"
  using assms by (simp_all add: appendSlice_def setHeader_def Let_def)

lemma length_readSlice:
  "wellFormed m \<Longrightarrow> length (readSlice m (headers m x)) = slice_len (headers m x)"
proof (cases "slice_cap (headers m x) = 0")
  case True
  assume "wellFormed m"
  with True have "slice_len (headers m x) = 0" by (rule wellFormed_len0 [rotated])
  then show ?thesis by (simp add: readSlice_def)
next
  case False
  assume w: "wellFormed m"
  have "slice_cap (headers m x) = length (arrays m (slice_ptr (headers m x)))"
    using wellFormed_cap [OF w, of x] False by simp
  with wellFormed_len [OF w, of x] show ?thesis by (simp add: readSlice_def)
qed

lemma wellFormed_append:
  assumes "wellFormed m"
  shows "wellFormed (setHeader x (appendSlice rt (headers m x) c m))"
proof (cases "slice_len (headers m x) < slice_cap (headers m x)")
  case True
  note f = append_in_place [OF True, of rt c]
  let ?m' = "setHeader x (appendSlice rt (headers m x) c m)"
  from True have cx: "0 < slice_cap (headers m x)" by simp
  show ?thesis
  proof (rule wellFormedI)
    fix y
    show "slice_len (headers ?m' y) \<le> slice_cap (headers ?m' y)"
      using wellFormed_len [OF assms, of y] True by (simp add: f)
    show "0 < slice_cap (headers ?m' y) \<Longrightarrow> slice_ptr (headers ?m' y) < nextArray ?m'"
      using wellFormed_ptr [OF assms, of y] by (simp add: f split: if_splits)
    show "0 < slice_cap (headers ?m' y) \<Longrightarrow>
          slice_cap (headers ?m' y) = length (arrays ?m' (slice_ptr (headers ?m' y)))"
      using wellFormed_cap [OF assms, of y] by (auto simp: f split: if_splits)
    fix y'
    show "0 < slice_cap (headers ?m' y) \<Longrightarrow> 0 < slice_cap (headers ?m' y') \<Longrightarrow>
        slice_ptr (headers ?m' y) = slice_ptr (headers ?m' y') \<Longrightarrow> y = y'"
      using wellFormed_unshared [OF assms, of y y'] wellFormed_unshared [OF assms, of x y']
        wellFormed_unshared [OF assms, of y x]
      by (auto simp: f split: if_splits)
  qed
next
  case False
  note f = append_grown [OF False, of rt c]
  let ?m' = "setHeader x (appendSlice rt (headers m x) c m)"
  have l: "length (readSlice m (headers m x)) = slice_len (headers m x)"
    by (rule length_readSlice [OF assms])
  show ?thesis
  proof (rule wellFormedI)
    fix y
    show "slice_len (headers ?m' y) \<le> slice_cap (headers ?m' y)"
      using wellFormed_len [OF assms, of y] by (simp add: f)
    show "0 < slice_cap (headers ?m' y) \<Longrightarrow> slice_ptr (headers ?m' y) < nextArray ?m'"
      using wellFormed_ptr [OF assms, of y] by (simp add: f split: if_splits)
    show "0 < slice_cap (headers ?m' y) \<Longrightarrow>
          slice_cap (headers ?m' y) = length (arrays ?m' (slice_ptr (headers ?m' y)))"
      using wellFormed_cap [OF assms, of y] wellFormed_ptr [OF assms, of y] l
      by (auto simp: f split: if_splits)
    fix y'
    show "0 < slice_cap (headers ?m' y) \<Longrightarrow> 0 < slice_cap (headers ?m' y') \<Longrightarrow>
        slice_ptr (headers ?m' y) = slice_ptr (headers ?m' y') \<Longrightarrow> y = y'"
      using wellFormed_unshared [OF assms, of y y'] wellFormed_ptr [OF assms, of y]
        wellFormed_ptr [OF assms, of y']
      by (auto simp: f split: if_splits)
  qed
qed

lemma read_append:
  assumes "wellFormed m"
  shows "readSlice (setHeader x (appendSlice rt (headers m x) c m))
           (headers (setHeader x (appendSlice rt (headers m x) c m)) y) =
     (if y = x then readSlice m (headers m x) @ [c] else readSlice m (headers m y))"
proof (cases "slice_len (headers m x) < slice_cap (headers m x)")
  case True
  note f = append_in_place [OF True, of rt c]
  from True have cx: "0 < slice_cap (headers m x)" by simp
  have lx: "slice_len (headers m x) < length (arrays m (slice_ptr (headers m x)))"
    using wellFormed_cap [OF assms cx] True by simp
  show ?thesis
  proof (cases "y = x")
    case True
    with lx show ?thesis
      by (simp add: readSlice_def f take_Suc_conv_app_nth)
  next
    case False
    show ?thesis
    proof (cases "slice_cap (headers m y) = 0")
      case True
      with assms have "slice_len (headers m y) = 0" by (rule wellFormed_len0)
      with False show ?thesis by (simp add: readSlice_def f)
    next
      case c: False
      with wellFormed_unshared [OF assms, of y x] cx False
      have "slice_ptr (headers m y) \<noteq> slice_ptr (headers m x)" by auto
      with False show ?thesis by (simp add: readSlice_def f)
    qed
  qed
next
  case False
  note f = append_grown [OF False, of rt c]
  have l: "length (readSlice m (headers m x)) = slice_len (headers m x)"
    by (rule length_readSlice [OF assms])
  show ?thesis
  proof (cases "y = x")
    case True
    with l show ?thesis by (simp add: readSlice_def f)
  next
    case ne: False
    show ?thesis
    proof (cases "slice_cap (headers m y) = 0")
      case True
      with assms have "slice_len (headers m y) = 0" by (rule wellFormed_len0)
      with ne show ?thesis by (simp add: readSlice_def f)
    next
      case c: False
      with wellFormed_ptr [OF assms, of y]
      have "slice_ptr (headers m y) \<noteq> nextArray m" by auto
      with ne show ?thesis by (simp add: readSlice_def f)
    qed
  qed
qed

lemma intact_append:
  assumes w: "wellFormed m" and i: "intact m0 m"
  shows "intact m0 (setHeader x (appendSlice rt (headers m x) c m))"
  unfolding intact_def
proof (intro allI conjI impI)
  fix h
  let ?m' = "setHeader x (appendSlice rt (headers m x) c m)"
  let ?s = "headers m0 h"
  have old: "readSlice m ?s = readSlice m0 ?s"
    using i unfolding intact_def by blast
  show "readSlice ?m' ?s = readSlice m0 ?s"
  proof (cases "slice_len ?s = 0")
    case True
    then show ?thesis by (simp add: readSlice_def)
  next
    case pos: False
    with i have b: "slice_ptr ?s < nextArray m"
      and sh: "\<And>y. 0 < slice_cap (headers m y) \<Longrightarrow> slice_ptr (headers m y) = slice_ptr ?s
                 \<Longrightarrow> slice_len ?s \<le> slice_len (headers m y)"
      unfolding intact_def by auto
    show ?thesis
    proof (cases "slice_len (headers m x) < slice_cap (headers m x)")
      case True
      note f = append_in_place [OF True, of rt c]
      show ?thesis
      proof (cases "slice_ptr (headers m x) = slice_ptr ?s")
        case True
        with sh [of x] \<open>slice_len (headers m x) < slice_cap (headers m x)\<close>
        have "slice_len ?s \<le> slice_len (headers m x)" by simp
        with True old show ?thesis
          by (simp add: readSlice_def f)
      next
        case False
        with old show ?thesis by (simp add: readSlice_def f)
      qed
    next
      case False
      note f = append_grown [OF False, of rt c]
      from b old show ?thesis by (simp add: readSlice_def f)
    qed
  qed
next
  fix h
  let ?m' = "setHeader x (appendSlice rt (headers m x) c m)"
  let ?s = "headers m0 h"
  assume pos: "0 < slice_len ?s"
  with i have b: "slice_ptr ?s < nextArray m"
    and sh: "\<And>y. 0 < slice_cap (headers m y) \<Longrightarrow> slice_ptr (headers m y) = slice_ptr ?s
               \<Longrightarrow> slice_len ?s \<le> slice_len (headers m y)"
    unfolding intact_def by auto
  show "slice_ptr ?s < nextArray ?m'"
    using b by (cases "slice_len (headers m x) < slice_cap (headers m x)")
      (simp_all add: append_in_place append_grown)
  fix y
  assume y: "0 < slice_cap (headers ?m' y) \<and> slice_ptr (headers ?m' y) = slice_ptr ?s"
  show "slice_len ?s \<le> slice_len (headers ?m' y)"
  proof (cases "slice_len (headers m x) < slice_cap (headers m x)")
    case True
    note f = append_in_place [OF True, of rt c]
    show ?thesis
    proof (cases "y = x")
      case True
      with y sh [of x] show ?thesis by (simp add: f)
    next
      case False
      with y sh [of y] show ?thesis by (simp add: f)
    qed
  next
    case False
    note f = append_grown [OF False, of rt c]
    show ?thesis
    proof (cases "y = x")
      case True
      with y b show ?thesis by (simp add: f)
    next
      case False
      with y sh [of y] show ?thesis by (simp add: f)
    qed
  qed
qed

lemma intact_refl:
  assumes "wellFormed m"
  shows "intact m m"
  unfolding intact_def
proof (intro allI conjI impI)
  fix x
  show "readSlice m (headers m x) = readSlice m (headers m x)" ..
  assume pos: "0 < slice_len (headers m x)"
  with wellFormed_len [OF assms, of x] have cx: "0 < slice_cap (headers m x)" by simp
  then show "slice_ptr (headers m x) < nextArray m" by (rule wellFormed_ptr [OF assms])
  fix y
  assume "0 < slice_cap (headers m y) \<and> slice_ptr (headers m y) = slice_ptr (headers m x)"
  with wellFormed_unshared [OF assms, of y x] cx have "y = x" by simp
  then show "slice_len (headers m x) \<le> slice_len (headers m y)" by simp
qed

subsection \<open>The functions that write the stores\<close>

lemma StartMemory_facts:
  assumes "wellFormed m"
  shows "wellFormed (StartMemory m)"
    and "intact m0 m \<Longrightarrow> intact m0 (StartMemory m)"
    and "readSlice (StartMemory m) (headers (StartMemory m) y) =
           (if y = SelfDevice then [DeviceDiscoveryFlag] else readSlice m (headers m y))"
  using assms
  by (simp_all add: StartMemory_def wellFormed_literal intact_literal read_literal)

lemma addDeviceMemory_facts:
  assumes "wellFormed m"
  shows "wellFormed (addDeviceMemory z m)"
    and "intact m0 m \<Longrightarrow> intact m0 (addDeviceMemory z m)"
    and "readSlice (addDeviceMemory z m) (headers (addDeviceMemory z m) y) =
           (if y = StoreDevice (nextDevice z) then [] else readSlice m (headers m y))"
  using assms
  by (simp_all add: addDeviceMemory_def wellFormed_nil intact_nil read_nil)

lemma addCapabilityMemory_facts:
  assumes "wellFormed m"
  shows "wellFormed (addCapabilityMemory rt x c m)"
    and "intact m0 m \<Longrightarrow> intact m0 (addCapabilityMemory rt x c m)"
    and "readSlice (addCapabilityMemory rt x c m) (headers (addCapabilityMemory rt x c m) y) =
           (if y = x \<and> c \<notin> set (readSlice m (headers m x))
            then readSlice m (headers m x) @ [c] else readSlice m (headers m y))"
  using assms
  by (simp_all add: addCapabilityMemory_def wellFormed_append intact_append read_append)

lemma handleEventMemory_cases:
  "handleEventMemory z event m = m
   \<or> (\<exists>z2. handleEventMemory z event m = addDeviceMemory z2 m)"
  by (auto simp: handleEventMemory_def Let_def split: option.splits ProviderEvent.splits prod.splits)

lemma handleEventMemory_facts:
  assumes "wellFormed m"
  shows "wellFormed (handleEventMemory z event m)"
    and "intact m0 m \<Longrightarrow> intact m0 (handleEventMemory z event m)"
  using assms handleEventMemory_cases [of z event m] addDeviceMemory_facts(1,2)
  by metis+

lemma deviceBodyMemory_facts:
  assumes "wellFormed m"
  shows "wellFormed (deviceBodyMemory rt z n a m)"
    and "intact m0 m \<Longrightarrow> intact m0 (deviceBodyMemory rt z n a m)"
  using assms
  by (auto simp: deviceBodyMemory_def addCapabilityMemory_facts split: prod.splits)

lemma coherent_Start:
  assumes "coherent z m" and "wellFormed m"
  shows "coherent (snd (Start provider z)) (StartMemory m)"
  using assms
  by (auto simp: coherent_def Start_def Let_def StartMemory_facts(3) split: option.splits)

lemma handleEvent_devices:
  "(handleEventMemory z event m = m
      \<and> self (handleEvent z event) = self z
      \<and> (\<forall>b. device (deviceStore (handleEvent z event) b) = device (deviceStore z b)))
   \<or> (\<exists>z2 i. handleEventMemory z event m = addDeviceMemory z2 m
      \<and> self (handleEvent z event) = self z
      \<and> (\<forall>b. device (deviceStore (handleEvent z event) b) =
            (if b = nextDevice z2
             then \<lparr>Gateway = Some ThisGateway, Identifier = i, Capabilities = []\<rparr>
             else device (deviceStore z b))))"
proof (cases event)
  case None
  then show ?thesis by (simp add: handleEvent_def handleEventMemory_def)
next
  case (Some e)
  show ?thesis
  proof (cases e)
    case (NodeJoinEvent ieee)
    with Some show ?thesis
      by (auto simp: handleEvent_def handleEventMemory_def getNode_def getDevices_def
            addNode_def nextDeviceIdentifier_def addDevice_def callbacksCall_def Let_def
            split: option.splits)
  next
    case (NodeLeaveEvent ieee)
    with Some show ?thesis
      by (auto simp: handleEvent_def handleEventMemory_def getNode_def removeNode_def
            callbacksCall_def Let_def removeDevices_frame split: option.splits)
  qed (simp_all add: Some handleEvent_def handleEventMemory_def)
qed

lemma coherent_handleEvent:
  assumes "coherent z m" and "wellFormed m"
  shows "coherent (handleEvent z event) (handleEventMemory z event m)"
  using handleEvent_devices [of z event m] assms
  by (auto simp: coherent_def addDeviceMemory_facts(3))

lemma readAttempt_devices:
  "readAttempt c zcl n a ep z = Inr (r, z') \<Longrightarrow>
     self z' = self z \<and> (\<forall>b. device (deviceStore z' b) = device (deviceStore z b))"
  by (auto simp: readAttempt_def nextTransactionSequence_def Let_def split: sum.splits)

lemma Retry_devices:
  assumes "Retry k (readAttempt c zcl n a ep) z = Inr (r, z')"
  shows "self z' = self z \<and> (\<forall>b. device (deviceStore z' b) = device (deviceStore z b))"
  by (rule Retry_rel [where f = "readAttempt c zcl n a ep"
        and R = "\<lambda>z z'. self z' = self z
                  \<and> (\<forall>b. device (deviceStore z' b) = device (deviceStore z b))",
        OF _ _ _ assms])
     (auto dest!: readAttempt_devices)

lemma deviceBody_devices:
  assumes "deviceBody c zcl n a z = Inr z'"
  shows "self z' = self z
     \<and> (\<forall>b. device (deviceStore z' b) =
           (if b = a \<and> fst (findBasicEndpoint (endpointDescriptions (nodeStore z n))
                               (endpoints (deviceStore z a)))
            then addCapability (device (deviceStore z a)) HasProductInformationFlag
            else device (deviceStore z b)))"
proof (cases "findBasicEndpoint (endpointDescriptions (nodeStore z n)) (endpoints (deviceStore z a))")
  case (Pair found ep)
  show ?thesis
  proof (cases found)
    case False
    with Pair assms show ?thesis by (simp add: deviceBody_def)
  next
    case True
    with Pair assms obtain r z1 where
      rt: "Retry (DefaultNetworkRetries c) (readAttempt c zcl n a ep) z = Inr (r, z1)"
      by (auto simp: deviceBody_def split: sum.splits)
    note d = Retry_devices [OF rt]
    from Pair True assms rt d show ?thesis
      by (cases r) (auto simp: deviceBody_def Let_def)
  qed
qed

lemma coherent_deviceBody:
  assumes "coherent z m" and "wellFormed m" and "deviceBody c zcl n a z = Inr z'"
  shows "coherent z' (deviceBodyMemory rt z n a m)"
proof -
  note d = deviceBody_devices [OF assms(3)]
  obtain found ep where fb: "findBasicEndpoint (endpointDescriptions (nodeStore z n))
      (endpoints (deviceStore z a)) = (found, ep)"
    by (cases "findBasicEndpoint (endpointDescriptions (nodeStore z n))
      (endpoints (deviceStore z a))") auto
  show ?thesis
  proof (cases found)
    case False
    with fb d assms(1) show ?thesis
      by (simp add: deviceBodyMemory_def coherent_def)
  next
    case True
    with fb d assms(1,2) show ?thesis
      by (auto simp: deviceBodyMemory_def coherent_def addCapabilityMemory_facts(3)
            addCapability_def)
  qed
qed

lemma mutations_invariant:
  assumes "mutations rt z0 m0 z m" and "wellFormed m0" and "coherent z0 m0"
  shows "wellFormed m \<and> intact m0 m \<and> coherent z m"
  using assms
proof (induction rule: mutations.induct)
  case none
  then show ?case by (simp add: intact_refl)
next
  case (start z m provider)
  then show ?case by (simp add: StartMemory_facts(1,2) coherent_Start)
next
  case (handle z m event)
  then show ?case by (simp add: handleEventMemory_facts coherent_handleEvent)
next
  case (send z m e)
  then show ?case by (simp add: coherent_def sendEvent_def)
next
  case (read z m)
  then show ?case by (simp add: coherent_def ReadEvent_def split: list.splits)
next
  case (enumerate z m c zcl n a z')
  then show ?case by (simp add: deviceBodyMemory_facts coherent_deviceBody)
qed

lemma readDevice_structOf:
  "readSlice m' s = Capabilities d \<Longrightarrow> readDevice m' (structOf d s) = d"
  by (simp add: readDevice_def structOf_def)

lemma DevicesMemory_read:
  assumes "coherent z m" and "intact m m'"
  shows "map (readDevice m') (DevicesMemory visit z m) = Devices visit z"
proof -
  have r: "readSlice m' (headers m x) = readSlice m (headers m x)" for x
    using assms(2) unfolding intact_def by blast
  have s: "readDevice m' (structOf (device (self z)) (headers m SelfDevice)) = device (self z)"
    using assms(1) r [of SelfDevice] by (simp add: readDevice_structOf coherent_def)
  have d: "readDevice m' (structOf (device (deviceStore z a)) (headers m (StoreDevice a)))
             = device (deviceStore z a)" for a
    using assms(1) r [of "StoreDevice a"] by (simp add: readDevice_structOf coherent_def)
  have inner: "map (readDevice m')
      (case nodes z ieee of None \<Rightarrow> []
       | Some n \<Rightarrow> map (\<lambda>a. structOf (device (deviceStore z a)) (headers m (StoreDevice a)))
                    (node_devices (nodeStore z n)))
      = (case nodes z ieee of None \<Rightarrow> [] | Some n \<Rightarrow> devicesOfNode z n)" for ieee
    by (cases "nodes z ieee") (simp_all add: devicesOfNode_def d)
  show ?thesis
    by (simp add: DevicesMemory_def Devices_def map_concat comp_def s inner)
qed

lemma wellFormed_NewMemory: "wellFormed NewMemory"
  by (simp add: wellFormed_def NewMemory_def nilSlice_def)

lemma coherent_New: "coherent New NewMemory"
  by (simp add: coherent_def New_def NewMemory_def nilSlice_def readSlice_def
        zeroInternalDevice_def zeroDevice_def)

lemma joinedGateway_stores:
  "deviceStore joinedGateway a =
     (if a = 0 then zeroInternalDevice
        \<lparr>device := \<lparr>Gateway = Some ThisGateway,
                     Identifier = IEEEAddressWithSubIdentifier 0xAABB 0, Capabilities = []\<rparr>,
         owner := Some 0\<rparr>
      else zeroInternalDevice)"
  by (simp add: joinedGateway_def handleEvent_def getNode_def getDevices_def
        addNode_def nextDeviceIdentifier_def addDevice_def callbacksCall_def New_def Let_def
        zeroInternalNode_def)

lemma onOffGateway_simps:
  "nodes onOffGateway = [0xAABB \<mapsto> 0]"
  "node_devices (nodeStore onOffGateway 0) = [0]"
  "self onOffGateway = zeroInternalDevice"
  "device (deviceStore onOffGateway 0) =
     \<lparr>Gateway = Some ThisGateway, Identifier = IEEEAddressWithSubIdentifier 0xAABB 0,
      Capabilities = [OnOffFlag]\<rparr>"
  "a \<noteq> 0 \<Longrightarrow> deviceStore onOffGateway a = zeroInternalDevice"
  "endpointDescriptions (nodeStore onOffGateway 0) =
     [0x01 \<mapsto> \<lparr>InClusterList = [0x0000, 0x0006], OutClusterList = []\<rparr>]"
  "endpoints (deviceStore onOffGateway 0) = [0x01]"
  by (simp_all add: onOffGateway_def enumeratedGateway_def joinedGateway_simps
        joinedGateway_stores)

lemma onOffMemory_wellFormed: "wellFormed onOffMemory"
  by (simp add: wellFormed_def onOffMemory_def NewMemory_def nilSlice_def)

lemma onOffMemory_coherent: "coherent onOffGateway onOffMemory"
  by (simp add: coherent_def onOffGateway_simps onOffMemory_def NewMemory_def nilSlice_def
        readSlice_def zeroInternalDevice_def zeroDevice_def)

text \<open>
  Claim C5. Whatever the order in which the node map is visited, \<open>Devices\<close> returns the
  gateway's own device, first, and with it exactly the devices of the nodes that are in the
  map, each as often as its node lists it: an element after the first is the \<open>device\<close>
  value of a device in the list of a present node. The result is a snapshot: its structs
  share the arrays of their \<open>Capabilities\<close> slices with the stores, and still, read in the
  memory of the call and read in the memory of any state the gateway reaches later (by
  \<open>Start\<close>, by joins and leaves, by events sent and read, by the enumeration callback
  attaching a capability), they are the values the stores held at the call. This holds in
  a well formed memory that is coherent with the state, which is what \<open>New\<close> starts from and
  what every such step keeps.
\<close>

theorem Devices_snapshot:
  "distinct visit \<Longrightarrow> set visit = dom (nodes z) \<Longrightarrow>
     mset (Devices visit z) =
       add_mset (Self z)
         (\<Sum>ieee \<in> dom (nodes z). mset (devicesOfNode z (the (nodes z ieee))))
     \<and> hd (Devices visit z) = Self z
     \<and> set (tl (Devices visit z)) =
         {d. \<exists>ieee n a. nodes z ieee = Some n \<and> a \<in> set (node_devices (nodeStore z n))
               \<and> d = device (deviceStore z a)}
     \<and> coherent New NewMemory \<and> wellFormed NewMemory
     \<and> (coherent z m \<and> wellFormed m \<and> mutations rt z m z' m' \<longrightarrow>
          map (readDevice m) (DevicesMemory visit z m) = Devices visit z
          \<and> map (readDevice m') (DevicesMemory visit z m) = Devices visit z
          \<and> coherent z' m' \<and> wellFormed m')"
proof (intro conjI impI)
  assume d: "distinct visit" and s: "set visit = dom (nodes z)"
  show "mset (Devices visit z) =
       add_mset (Self z)
         (\<Sum>ieee \<in> dom (nodes z). mset (devicesOfNode z (the (nodes z ieee))))"
    by (rule mset_Devices [OF d s])
  show "hd (Devices visit z) = Self z"
    by (simp add: Devices_def Self_def)
  show "set (tl (Devices visit z)) =
         {d. \<exists>ieee n a. nodes z ieee = Some n \<and> a \<in> set (node_devices (nodeStore z n))
               \<and> d = device (deviceStore z a)}"
    using s by (auto simp: Devices_def devicesOfNode_def split: option.splits) blast+
  show "coherent New NewMemory" by (rule coherent_New)
  show "wellFormed NewMemory" by (rule wellFormed_NewMemory)
next
  assume h: "coherent z m \<and> wellFormed m \<and> mutations rt z m z' m'"
  then have inv: "wellFormed m' \<and> intact m m' \<and> coherent z' m'"
    using mutations_invariant [of rt z m z' m'] by blast
  from h show "map (readDevice m) (DevicesMemory visit z m) = Devices visit z"
    by (simp add: DevicesMemory_read intact_refl)
  from h inv show "map (readDevice m') (DevicesMemory visit z m) = Devices visit z"
    by (simp add: DevicesMemory_read)
  from inv show "coherent z' m'" by simp
  from inv show "wellFormed m'" by simp
qed

theorem Devices_snapshot_witness:
  "distinct [0xAABB :: IEEEAddress]
   \<and> set [0xAABB] = dom (nodes onOffGateway)
   \<and> coherent onOffGateway onOffMemory
   \<and> wellFormed onOffMemory
   \<and> mutations exampleRuntime onOffGateway onOffMemory
        (projr (deviceBody exampleConstants answersComplete 0 0 onOffGateway))
        (deviceBodyMemory exampleRuntime onOffGateway 0 0 onOffMemory)
   \<and> slice_ptr (ds_Capabilities (DevicesMemory [0xAABB] onOffGateway onOffMemory ! 1)) = 0
   \<and> arrays onOffMemory 0 = [OnOffFlag, OtherFlag 0]
   \<and> arrays (deviceBodyMemory exampleRuntime onOffGateway 0 0 onOffMemory) 0
       = [OnOffFlag, HasProductInformationFlag]
   \<and> Capabilities (device (deviceStore
        (projr (deviceBody exampleConstants answersComplete 0 0 onOffGateway)) 0))
       = [OnOffFlag, HasProductInformationFlag]
   \<and> map (readDevice (deviceBodyMemory exampleRuntime onOffGateway 0 0 onOffMemory))
        (DevicesMemory [0xAABB] onOffGateway onOffMemory)
       = [\<lparr>Gateway = None, Identifier = NoIdentifier, Capabilities = []\<rparr>,
          \<lparr>Gateway = Some ThisGateway, Identifier = IEEEAddressWithSubIdentifier 0xAABB 0,
           Capabilities = [OnOffFlag]\<rparr>]
   \<and> mset (Devices [0xAABB] onOffGateway) =
       {#\<lparr>Gateway = None, Identifier = NoIdentifier, Capabilities = []\<rparr>,
         \<lparr>Gateway = Some ThisGateway, Identifier = IEEEAddressWithSubIdentifier 0xAABB 0,
          Capabilities = [OnOffFlag]\<rparr>#}"
proof -
  let ?z' = "projr (deviceBody exampleConstants answersComplete 0 0 onOffGateway)"
  let ?m' = "deviceBodyMemory exampleRuntime onOffGateway 0 0 onOffMemory"
  have d: "distinct [0xAABB :: IEEEAddress]" by simp
  have s: "set [0xAABB] = dom (nodes onOffGateway)"
    by (simp add: onOffGateway_simps)
  obtain z1 where b: "deviceBody exampleConstants answersComplete 0 0 onOffGateway = Inr z1"
    using deviceBody_wellTyped [OF answersComplete_wellTyped] by blast
  then have z1: "?z' = z1" by simp
  have mu: "mutations exampleRuntime onOffGateway onOffMemory ?z' ?m'"
    unfolding z1 by (rule mutations.enumerate [OF mutations.none b])
  have found: "fst (findBasicEndpoint (endpointDescriptions (nodeStore onOffGateway 0))
      (endpoints (deviceStore onOffGateway 0)))"
    by (simp add: onOffGateway_simps endpointInClusters_def isClusterIdInSlice_def)
  have caps: "Capabilities (device (deviceStore ?z' 0)) = [OnOffFlag, HasProductInformationFlag]"
    unfolding z1 using deviceBody_devices [OF b] found
    by (simp add: onOffGateway_simps addCapability_def)
  have arr: "arrays ?m' 0 = [OnOffFlag, HasProductInformationFlag]"
    using found
    by (simp add: deviceBodyMemory_def case_prod_beta addCapabilityMemory_def appendSlice_def
          setHeader_def onOffMemory_def NewMemory_def readSlice_def)
  have arr0: "arrays onOffMemory 0 = [OnOffFlag, OtherFlag 0]"
    by (simp add: onOffMemory_def)
  have ptr: "slice_ptr (ds_Capabilities (DevicesMemory [0xAABB] onOffGateway onOffMemory ! 1)) = 0"
    by (simp add: DevicesMemory_def onOffGateway_simps structOf_def onOffMemory_def)
  note t = Devices_snapshot [OF d s, of onOffMemory exampleRuntime ?z' ?m']
  have dev: "Devices [0xAABB] onOffGateway
      = [\<lparr>Gateway = None, Identifier = NoIdentifier, Capabilities = []\<rparr>,
          \<lparr>Gateway = Some ThisGateway, Identifier = IEEEAddressWithSubIdentifier 0xAABB 0,
           Capabilities = [OnOffFlag]\<rparr>]"
    by (simp add: Devices_def devicesOfNode_def onOffGateway_simps zeroInternalDevice_def
          zeroDevice_def)
  from t onOffMemory_coherent onOffMemory_wellFormed mu
  have snap: "map (readDevice ?m') (DevicesMemory [0xAABB] onOffGateway onOffMemory)
      = Devices [0xAABB] onOffGateway"
    by blast
  from t have ms: "mset (Devices [0xAABB] onOffGateway) =
       add_mset (Self onOffGateway)
         (\<Sum>ieee \<in> dom (nodes onOffGateway).
            mset (devicesOfNode onOffGateway (the (nodes onOffGateway ieee))))"
    by blast
  have ms': "mset (Devices [0xAABB] onOffGateway) =
       {#\<lparr>Gateway = None, Identifier = NoIdentifier, Capabilities = []\<rparr>,
         \<lparr>Gateway = Some ThisGateway, Identifier = IEEEAddressWithSubIdentifier 0xAABB 0,
          Capabilities = [OnOffFlag]\<rparr>#}"
    using ms by (simp add: Self_def onOffGateway_simps devicesOfNode_def zeroInternalDevice_def
          zeroDevice_def)
  from d s onOffMemory_coherent onOffMemory_wellFormed mu ptr arr0 arr caps snap dev ms'
  show ?thesis by simp
qed

section \<open>Properties of device discovery\<close>

text \<open>
  Claim C6. When \<open>Allow\<close> or \<open>Deny\<close> is called on the gateway's own device and the
  provider's \<open>PermitJoin\<close> or \<open>DenyJoin\<close> returns an error, that very error is the result,
  and the discovery state (the flag and the expiry) and the gateway, its event queue
  included, are as they were.
\<close>

theorem discovery_provider_error:
  "Identifier dev = Identifier (Self z) \<Longrightarrow>
     (PermitJoin provider = Some err \<longrightarrow>
        Allow provider now (zdd, z) dev duration = (Some err, zdd, z))
     \<and> (DenyJoin provider = Some err \<longrightarrow>
        Deny provider (zdd, z) dev = (Some err, zdd, z))"
  by (simp add: Allow_def Deny_def)

theorem discovery_provider_error_witness:
  "Identifier (Self (snd (Start failingProvider New)))
     = Identifier (Self (snd (Start failingProvider New)))
   \<and> Allow failingProvider 0 (\<lparr>discovering = False, allowExpiry = None\<rparr>,
        snd (Start failingProvider New)) (Self (snd (Start failingProvider New))) 500
      = (Some (ProviderError ''permit join failure''),
         \<lparr>discovering = False, allowExpiry = None\<rparr>, snd (Start failingProvider New))
   \<and> Deny failingProvider (\<lparr>discovering = True, allowExpiry = Some 500\<rparr>,
        snd (Start failingProvider New)) (Self (snd (Start failingProvider New)))
      = (Some (ProviderError ''deny join failure''),
         \<lparr>discovering = True, allowExpiry = Some 500\<rparr>, snd (Start failingProvider New))"
  using discovery_provider_error [of "Self (snd (Start failingProvider New))"
      "snd (Start failingProvider New)" failingProvider "ProviderError ''permit join failure''"
      0 "\<lparr>discovering = False, allowExpiry = None\<rparr>" 500]
    discovery_provider_error [of "Self (snd (Start failingProvider New))"
      "snd (Start failingProvider New)" failingProvider "ProviderError ''deny join failure''"
      0 "\<lparr>discovering = True, allowExpiry = Some 500\<rparr>" 500]
  by (simp add: failingProvider_def)

end
